theory Spec2Isabelle
  imports Main
begin

section \<open>Latest-version resolution of drafts: src/versions/drafts/queryDrafts.ts\<close>

subsection \<open>JavaScript values and object literals\<close>

text \<open>
  Values as the TypeScript code handles them. An object is the list of its own properties
  in insertion order; \<open>JUndefined\<close> is what reading a missing property gives. Timestamps
  are \<open>JDate\<close> values (milliseconds), ordered as the store orders dates.
\<close>

datatype jsval =
    JUndefined
  | JNull
  | JBool bool
  | JNum int
  | JStr string
  | JDate int
  | JArr "jsval list"
  | JObj "(string \<times> jsval) list"

type_synonym jsobj = "(string \<times> jsval) list"

text \<open>
  \<open>{ ...o, [k]: v }\<close>: an existing property keeps its position and takes the new value, a new
  property is appended.
\<close>

fun set_prop :: "'k \<Rightarrow> 'v \<Rightarrow> ('k \<times> 'v) list \<Rightarrow> ('k \<times> 'v) list" where
  "set_prop k v [] = [(k, v)]"
| "set_prop k v ((k', v') # ps) =
     (if k' = k then (k, v) # ps else (k', v') # set_prop k v ps)"

text \<open>\<open>{ ...target, ...src }\<close>: the properties of \<open>src\<close> are written onto \<open>target\<close> in order.\<close>

definition spread :: "('k \<times> 'v) list \<Rightarrow> ('k \<times> 'v) list \<Rightarrow> ('k \<times> 'v) list" where
  "spread src target = foldl (\<lambda>obj (k, v). set_prop k v obj) target src"

text \<open>\<open>o[k]\<close>: \<open>None\<close> is \<open>undefined\<close>.\<close>

definition get_prop :: "('k \<times> 'v) list \<Rightarrow> 'k \<Rightarrow> 'v option" where
  "get_prop obj k = map_of obj k"

subsection \<open>Where predicates and access results\<close>

text \<open>
  A \<open>Where\<close> object is the list of its entries: a field key with its operator object
  (\<open>{ latest: { equals: true } }\<close>), or \<open>and\<close> / \<open>or\<close> with a list of \<open>Where\<close> objects.
  \<open>AccessResult\<close> is \<open>boolean | Where\<close>.
\<close>

datatype where_entry =
    Where_field string jsobj
  | Where_and "where_entry list list"
  | Where_or "where_entry list list"

type_synonym Where = "where_entry list"

datatype access_result = AccessBool bool | AccessWhere Where

text \<open>
  Modelled from the spec: \<open>hasWhereAccessResult\<close> is imported from \<open>../../auth\<close>, which is not
  among the sources. The spec (3, 4.2 step 2) distinguishes an access result that is a
  predicate from the booleans; the type guard holds exactly for a predicate.
\<close>

definition hasWhereAccessResult :: "access_result \<Rightarrow> bool" where
  "hasWhereAccessResult r = (case r of AccessWhere w \<Rightarrow> True | AccessBool b \<Rightarrow> False)"

text \<open>The \<open>Where\<close> that the type guard narrows an access result to.\<close>

definition narrowed_where :: "access_result \<Rightarrow> Where option" where
  "narrowed_where r = (case r of AccessWhere w \<Rightarrow> Some w | AccessBool b \<Rightarrow> None)"

text \<open>
  The two imported helpers whose source is absent (\<open>./appendVersionToQueryKey\<close>,
  \<open>../../database/combineQueries\<close>) are parameters of the model: every theorem below holds
  for each implementation of them.
\<close>

record helpers =
  appendVersionToQueryKey :: "Where \<Rightarrow> Where"
  combineQueries :: "Where \<Rightarrow> Where option \<Rightarrow> Where"

subsection \<open>Documents of the versions collection\<close>

text \<open>
  A document of the versions collection, and of the stream an aggregation works on:
  \<open>u_id\<close> is the property \<open>_id\<close>. A version record carries \<open>parent\<close> and possibly \<open>latest\<close>;
  a grouped row (the type \<open>AggregateVersion\<close> of the source: \<open>_id\<close>, \<open>version\<close>, \<open>updatedAt\<close>,
  \<open>createdAt\<close>) has no \<open>parent\<close> property, which reads as \<open>JUndefined\<close>.
\<close>

record version_doc =
  u_id :: jsval
  parent :: jsval
  version :: jsobj
  updatedAt :: int
  createdAt :: int
  latest :: "bool option"

text \<open>The paginated shape: \<open>docs\<close>, and the other properties, which \<open>...result\<close> passes on.\<close>

record 'd paginated =
  docs :: "'d list"
  rest :: jsobj

text \<open>
  What the variable \<open>result\<close> holds before line 106 / 165: an awaited paginated object, an
  awaited array of documents, or a promise that was not awaited.
\<close>

datatype 'd js_result =
    Paginated "'d paginated"
  | Array "'d list"
  | Promise

text \<open>\<open>result.docs\<close>: only the paginated object has such a property.\<close>

definition docs_of :: "'d js_result \<Rightarrow> 'd list option" where
  "docs_of r = (case r of Paginated p \<Rightarrow> Some (docs p) | Array ds \<Rightarrow> None | Promise \<Rightarrow> None)"

text \<open>The own enumerable properties other than \<open>docs\<close> that \<open>...result\<close> copies.\<close>

definition rest_of :: "'d js_result \<Rightarrow> jsobj" where
  "rest_of r = (case r of Paginated p \<Rightarrow> rest p | Array ds \<Rightarrow> [] | Promise \<Rightarrow> [])"

datatype error = TypeError | Failure string

subsection \<open>The aggregation pipeline\<close>

text \<open>
  The three stages of lines 62 to 76:
  \<open>{ $sort: { updatedAt: -1 } }\<close>,
  \<open>{ $group: { _id: '$parent', version: { $first: '$version' }, updatedAt: { $first:
  '$updatedAt' }, createdAt: { $first: '$createdAt' } } }\<close> and \<open>{ $match: versionQuery }\<close>.
\<close>

datatype 'q stage =
    Sort_updatedAt_desc
  | Group_parent_first
  | Match 'q

record 'q aggregate =
  pipeline :: "'q stage list"
  allowDiskUse :: bool

definition aggregate_pipeline :: "'q \<Rightarrow> 'q stage list" where
  "aggregate_pipeline versionQuery = [Sort_updatedAt_desc, Group_parent_first, Match versionQuery]"

text \<open>
  Modelled from the spec: the store that executes a pipeline is not part of the repository.
  The spec (4.2 step 4) gives the stages their meaning: sort all records by \<open>updatedAt\<close>
  descending; group by \<open>parent\<close>, keeping the first \<open>version\<close>, \<open>updatedAt\<close> and \<open>createdAt\<close> met
  in each group; keep the documents that the predicate matches. The sort is the stable one,
  so records with equal \<open>updatedAt\<close> stay in the store's order; a missing group key is
  \<open>null\<close>; what a predicate matches is the parameter \<open>matches\<close>.
\<close>

definition group_key :: "version_doc \<Rightarrow> jsval" where
  "group_key d = (if parent d = JUndefined then JNull else parent d)"

definition first_of_group :: "version_doc \<Rightarrow> version_doc" where
  "first_of_group d =
     \<lparr>u_id = group_key d, parent = JUndefined, version = version d,
      updatedAt = updatedAt d, createdAt = createdAt d, latest = None\<rparr>"

fun group_first :: "version_doc list \<Rightarrow> version_doc list" where
  "group_first [] = []"
| "group_first (d # ds) =
     first_of_group d # group_first (filter (\<lambda>d'. group_key d' \<noteq> group_key d) ds)"

fun run_stage :: "('q \<Rightarrow> version_doc \<Rightarrow> bool) \<Rightarrow> 'q stage \<Rightarrow> version_doc list \<Rightarrow> version_doc list" where
  "run_stage matches Sort_updatedAt_desc ds = sort_key (\<lambda>d. - updatedAt d) ds"
| "run_stage matches Group_parent_first ds = group_first ds"
| "run_stage matches (Match q) ds = filter (matches q) ds"

definition run_pipeline ::
  "('q \<Rightarrow> version_doc \<Rightarrow> bool) \<Rightarrow> 'q stage list \<Rightarrow> version_doc list \<Rightarrow> version_doc list" where
  "run_pipeline matches stages store = foldl (\<lambda>ds st. run_stage matches st ds) store stages"

subsection \<open>Arguments and collaborators\<close>

text \<open>
  \<open>PaginateOptions\<close>: \<open>sort\<close> (here \<open>sort_option\<close>, the entries of the mapping in order), the
  options the code sets, and the others, which \<open>...paginationOptions\<close> passes on. The caller's
  \<open>sort\<close> is a mapping from keys to direction tokens, or absent; the one handed to the paginator
  maps keys to \<open>1\<close> or \<open>-1\<close>.
\<close>

record 's paginate_options =
  sort_option :: 's
  lean :: "bool option"
  leanWithId :: "bool option"
  useFacet :: "bool option"
  other_options :: jsobj

record 'r build_query_args =
  bq_where :: Where
  bq_access :: "access_result option"
  bq_req :: 'r
  bq_overrideAccess :: bool

text \<open>
  \<open>VersionModel\<close>: the collaborators of the store. Each may fail; \<open>find\<close> resolves to whatever
  shape the store gives.
\<close>

record ('q, 'r) collection_model =
  buildQuery :: "'r build_query_args \<Rightarrow> error + 'q"
  aggregatePaginate ::
    "'q aggregate \<Rightarrow> (string \<times> int) list paginate_options \<Rightarrow> error + version_doc paginated"
  paginate :: "'q \<Rightarrow> (string \<times> int) list paginate_options \<Rightarrow> error + version_doc paginated"
  find :: "'q \<Rightarrow> error + version_doc js_result"

record database_config =
  queryDrafts_2_0 :: "bool option"

record config =
  database :: "database_config option"

record mongo_options =
  mongo_useFacet :: "bool option"

text \<open>
  \<open>Payload\<close>: \<open>payload_config\<close> is its property \<open>config\<close>, absent or with an optional \<open>database\<close>
  section; \<open>versions\<close> maps a collection slug to its version model, \<open>None\<close> where there is none.
\<close>

record ('q, 'r) payload =
  payload_config :: "config option"
  mongoOptions :: "mongo_options option"
  versions :: "string \<Rightarrow> ('q, 'r) collection_model option"

text \<open>
  \<open>Args\<close>; \<open>collection_slug\<close> is \<open>collection.config.slug\<close>, \<open>where_arg\<close> is \<open>where\<close>, which line 47
  allows to be absent.
\<close>

record ('q, 'r) args =
  accessResult :: access_result
  collection_slug :: string
  req :: 'r
  overrideAccess :: bool
  paginationOptions :: "(string \<times> string) list option paginate_options option"
  payload :: "('q, 'r) payload"
  where_arg :: "Where option"

text \<open>
  The calls made on the version model, in order, with their arguments. \<open>aggregate\<close> (line 62)
  only builds the aggregation object and is not among them.
\<close>

datatype ('q, 'r) call =
    BuildQuery "'r build_query_args"
  | AggregatePaginate "'q aggregate" "(string \<times> int) list paginate_options"
  | AggregateExec "'q aggregate"
  | Paginate 'q "(string \<times> int) list paginate_options"
  | Find 'q

text \<open>The calls that execute a query on the store.\<close>

fun store_execution :: "('q, 'r) call \<Rightarrow> bool" where
  "store_execution (BuildQuery b) = False"
| "store_execution (AggregatePaginate g opts) = True"
| "store_execution (AggregateExec g) = True"
| "store_execution (Paginate q opts) = True"
| "store_execution (Find q) = True"

subsection \<open>Sort keys\<close>

text \<open>
  The reducer of lines 87 to 98, the same text as lines 146 to 157: it is given the sort
  object built so far and one entry of the caller's \<open>sort\<close>.
\<close>

definition sortReducer :: "(string \<times> int) list \<Rightarrow> string \<times> string \<Rightarrow> (string \<times> int) list" where
  "sortReducer sort_so_far entry =
     (case entry of (incomingSortKey, order) \<Rightarrow>
        let key = (if \<not> List.member [''createdAt'', ''updatedAt'', ''_id''] incomingSortKey
                   then ''version.'' @ incomingSortKey else incomingSortKey)
        in set_prop key (if order = ''asc'' then 1 else - 1) sort_so_far)"

text \<open>\<open>Object.entries(sort).reduce(..., {})\<close>; of \<open>undefined\<close> it throws a TypeError.\<close>

definition reduce_sort :: "(string \<times> string) list option \<Rightarrow> error + (string \<times> int) list" where
  "reduce_sort s = (case s of None \<Rightarrow> Inl TypeError | Some entries \<Rightarrow> Inr (foldl sortReducer [] entries))"

subsection \<open>Result normalisation\<close>

text \<open>Lines 108 to 113: \<open>{ _id: doc._id, ...doc.version, updatedAt: ..., createdAt: ... }\<close>.\<close>

definition normalizeV1 :: "version_doc \<Rightarrow> jsobj" where
  "normalizeV1 doc =
     set_prop ''createdAt'' (JDate (createdAt doc))
       (set_prop ''updatedAt'' (JDate (updatedAt doc))
          (spread (version doc) [(''_id'', u_id doc)]))"

text \<open>Lines 167 to 173: \<open>{ _id: doc.parent, id: doc.parent, ...doc.version, updatedAt: ..., createdAt: ... }\<close>.\<close>

definition normalizeV2 :: "version_doc \<Rightarrow> jsobj" where
  "normalizeV2 doc =
     set_prop ''createdAt'' (JDate (createdAt doc))
       (set_prop ''updatedAt'' (JDate (updatedAt doc))
          (spread (version doc) [(''_id'', parent doc), (''id'', parent doc)]))"

text \<open>
  Lines 106 to 114 and 165 to 174: \<open>{ ...result, docs: result.docs.map(f) }\<close>. Calling \<open>map\<close> on
  \<open>undefined\<close> throws a TypeError.
\<close>

definition map_docs :: "('d \<Rightarrow> jsobj) \<Rightarrow> 'd js_result \<Rightarrow> error + jsobj paginated" where
  "map_docs f result =
     (case docs_of result of
        None \<Rightarrow> Inl TypeError
      | Some ds \<Rightarrow> Inr \<lparr>docs = map f ds, rest = rest_of result\<rparr>)"

subsection \<open>The two strategies and the selector\<close>

text \<open>
  Each function returns the calls it made on the version model and its outcome: \<open>Inr\<close> the
  value the returned promise resolves to, \<open>Inl\<close> the error it rejects with. A collaborator
  that is awaited and fails ends the function with its error. Line 103 calls \<open>exec\<close> and does
  not await it: \<open>result\<close> is the promise. A missing version model is \<open>undefined\<close>, and calling
  \<open>buildQuery\<close> on it throws a TypeError.
\<close>

definition queryDraftsV1 ::
  "helpers \<Rightarrow> ('q, 'r) args \<Rightarrow> ('q, 'r) call list \<times> (error + jsobj paginated)" where
  "queryDraftsV1 h a =
     (case versions (payload a) (collection_slug a) of
        None \<Rightarrow> ([], Inl TypeError)
      | Some VersionModel \<Rightarrow>
          let where_v = appendVersionToQueryKey h (case where_arg a of None \<Rightarrow> [] | Some w \<Rightarrow> w);
              versionAccessResult =
                (if hasWhereAccessResult (accessResult a)
                 then map_option (appendVersionToQueryKey h) (narrowed_where (accessResult a))
                 else None);
              bq = \<lparr>bq_where = where_v, bq_access = map_option AccessWhere versionAccessResult,
                    bq_req = req a, bq_overrideAccess = overrideAccess a\<rparr>
          in (case buildQuery VersionModel bq of
                Inl e \<Rightarrow> ([BuildQuery bq], Inl e)
              | Inr versionQuery \<Rightarrow>
                  let aggregate = \<lparr>pipeline = aggregate_pipeline versionQuery, allowDiskUse = True\<rparr>
                  in (case paginationOptions a of
                        Some po \<Rightarrow>
                          (case reduce_sort (sort_option po) of
                             Inl e \<Rightarrow> ([BuildQuery bq], Inl e)
                           | Inr sort_v \<Rightarrow>
                               let aggregatePaginateOptions =
                                     \<lparr>sort_option = sort_v, lean = lean po, leanWithId = leanWithId po,
                                      useFacet = Option.bind (mongoOptions (payload a)) mongo_useFacet,
                                      other_options = other_options po\<rparr>
                               in (case aggregatePaginate VersionModel aggregate aggregatePaginateOptions of
                                     Inl e \<Rightarrow>
                                       ([BuildQuery bq, AggregatePaginate aggregate aggregatePaginateOptions],
                                        Inl e)
                                   | Inr p \<Rightarrow>
                                       ([BuildQuery bq, AggregatePaginate aggregate aggregatePaginateOptions],
                                        map_docs normalizeV1 (Paginated p))))
                      | None \<Rightarrow>
                          ([BuildQuery bq, AggregateExec aggregate], map_docs normalizeV1 Promise))))"

definition queryDraftsV2 ::
  "helpers \<Rightarrow> ('q, 'r) args \<Rightarrow> ('q, 'r) call list \<times> (error + jsobj paginated)" where
  "queryDraftsV2 h a =
     (case versions (payload a) (collection_slug a) of
        None \<Rightarrow> ([], Inl TypeError)
      | Some VersionModel \<Rightarrow>
          let combinedQuery =
                combineQueries h [Where_field ''latest'' [(''equals'', JBool True)]] (where_arg a);
              bq = \<lparr>bq_where = combinedQuery, bq_access = Some (accessResult a),
                    bq_req = req a, bq_overrideAccess = overrideAccess a\<rparr>
          in (case buildQuery VersionModel bq of
                Inl e \<Rightarrow> ([BuildQuery bq], Inl e)
              | Inr versionsQuery \<Rightarrow>
                  (case paginationOptions a of
                     Some po \<Rightarrow>
                       (case reduce_sort (sort_option po) of
                          Inl e \<Rightarrow> ([BuildQuery bq], Inl e)
                        | Inr sort_v \<Rightarrow>
                            let paginationOptionsToUse =
                                  \<lparr>sort_option = sort_v, lean = Some True, leanWithId = Some True,
                                   useFacet = Option.bind (mongoOptions (payload a)) mongo_useFacet,
                                   other_options = other_options po\<rparr>
                            in (case paginate VersionModel versionsQuery paginationOptionsToUse of
                                  Inl e \<Rightarrow>
                                    ([BuildQuery bq, Paginate versionsQuery paginationOptionsToUse], Inl e)
                                | Inr p \<Rightarrow>
                                    ([BuildQuery bq, Paginate versionsQuery paginationOptionsToUse],
                                     map_docs normalizeV2 (Paginated p))))
                   | None \<Rightarrow>
                       (case find VersionModel versionsQuery of
                          Inl e \<Rightarrow> ([BuildQuery bq, Find versionsQuery], Inl e)
                        | Inr result \<Rightarrow>
                            ([BuildQuery bq, Find versionsQuery], map_docs normalizeV2 result)))))"

text \<open>
  The test of line 29, \<open>args.payload.config?.database?.queryDrafts_2_0\<close>: each \<open>?.\<close> gives
  \<open>undefined\<close> when what it is applied to is absent, and \<open>undefined\<close> is falsy.
\<close>

definition usesFlagStrategy :: "('q, 'r) payload \<Rightarrow> bool" where
  "usesFlagStrategy p =
     (Option.bind (Option.bind (payload_config p) database) queryDrafts_2_0 = Some True)"

definition queryDrafts ::
  "helpers \<Rightarrow> ('q, 'r) args \<Rightarrow> ('q, 'r) call list \<times> (error + jsobj paginated)" where
  "queryDrafts h a =
     (if usesFlagStrategy (payload a) then queryDraftsV2 h a else queryDraftsV1 h a)"

subsection \<open>An example store\<close>

text \<open>
  Concrete helpers, a concrete version model and concrete arguments, on which the theorems
  below are instantiated.
\<close>

text \<open>
  Modelled from the spec: \<open>appendVersionToQueryKey\<close> is not among the sources. The Query Key
  Rewriter of the spec (4.4) maps \<open>id\<close>, \<open>createdAt\<close> and \<open>updatedAt\<close> to themselves and
  prefixes every other key with the nested namespace, which is the property \<open>version\<close> of a
  document; it is applied to every field reference of a predicate tree and leaves operators
  and logical structure as they are.
\<close>

fun rewrite_entry :: "where_entry \<Rightarrow> where_entry" where
  "rewrite_entry (Where_field k ops) =
     Where_field
       (if List.member [''id'', ''createdAt'', ''updatedAt''] k then k else ''version.'' @ k) ops"
| "rewrite_entry (Where_and ws) = Where_and (map (map rewrite_entry) ws)"
| "rewrite_entry (Where_or ws) = Where_or (map (map rewrite_entry) ws)"

text \<open>
  Modelled from the spec: \<open>combineQueries\<close> is not among the sources. The Predicate Combiner
  of the spec (4.5) returns the other predicate unchanged when one is empty or absent, and
  the conjunction of the two otherwise.
\<close>

definition spec_combineQueries :: "Where \<Rightarrow> Where option \<Rightarrow> Where" where
  "spec_combineQueries p1 p2 =
     (case p2 of
        None \<Rightarrow> p1
      | Some w \<Rightarrow> if w = [] then p1 else if p1 = [] then w else [Where_and [p1, w]])"

definition spec_helpers :: helpers where
  "spec_helpers =
     \<lparr>appendVersionToQueryKey = map rewrite_entry, combineQueries = spec_combineQueries\<rparr>"

text \<open>
  What the example store matches: an entry \<open>key: { equals: v }\<close> holds of a document whose
  field \<open>key\<close> is \<open>v\<close>, a key \<open>version.k\<close> addressing the property \<open>k\<close> of \<open>version\<close>; the entries
  of a \<open>Where\<close> object hold together.
\<close>

definition field_value :: "version_doc \<Rightarrow> string \<Rightarrow> jsval option" where
  "field_value d k =
     (if k = ''_id'' then Some (u_id d)
      else if k = ''parent'' then Some (parent d)
      else if k = ''updatedAt'' then Some (JDate (updatedAt d))
      else if k = ''createdAt'' then Some (JDate (createdAt d))
      else if k = ''latest'' then map_option JBool (latest d)
      else if take 8 k = ''version.'' then get_prop (version d) (drop 8 k)
      else None)"

fun entry_matches :: "version_doc \<Rightarrow> where_entry \<Rightarrow> bool" where
  "entry_matches d (Where_field k ops) = (get_prop ops ''equals'' = field_value d k)"
| "entry_matches d (Where_and ws) = list_all (list_all (entry_matches d)) ws"
| "entry_matches d (Where_or ws) = list_ex (list_all (entry_matches d)) ws"

definition where_matches :: "Where \<Rightarrow> version_doc \<Rightarrow> bool" where
  "where_matches w d = list_all (entry_matches d) w"

text \<open>
  The store of the spec's scenario (8): two versions of \<open>X\<close>, the older one published and the
  newer one a draft, and one version of \<open>Y\<close>, marked latest.
\<close>

definition example_store :: "version_doc list" where
  "example_store =
     [\<lparr>u_id = JStr ''v1'', parent = JStr ''X'', version = [(''status'', JStr ''published'')],
       updatedAt = 10, createdAt = 10, latest = None\<rparr>,
      \<lparr>u_id = JStr ''v2'', parent = JStr ''X'', version = [(''status'', JStr ''draft'')],
       updatedAt = 20, createdAt = 10, latest = None\<rparr>,
      \<lparr>u_id = JStr ''v3'', parent = JStr ''Y'', version = [(''status'', JStr ''published'')],
       updatedAt = 15, createdAt = 15, latest = Some True\<rparr>]"

text \<open>
  A version model over that store: the built query is the \<open>Where\<close> with the entries of the
  access predicate added, every result is one page, and \<open>find\<close> answers in the paginated
  shape of the spec (6).
\<close>

definition example_model :: "(Where, unit) collection_model" where
  "example_model =
     \<lparr>buildQuery =
        (\<lambda>b. Inr (bq_where b @ (case bq_access b of Some (AccessWhere w) \<Rightarrow> w | _ \<Rightarrow> []))),
      aggregatePaginate =
        (\<lambda>g opts. Inr \<lparr>docs = run_pipeline where_matches (pipeline g) example_store, rest = []\<rparr>),
      paginate =
        (\<lambda>q opts. Inr \<lparr>docs = filter (where_matches q) example_store, rest = []\<rparr>),
      find =
        (\<lambda>q. Inr (Paginated \<lparr>docs = filter (where_matches q) example_store, rest = []\<rparr>))\<rparr>"

definition example_payload :: "bool option \<Rightarrow> (Where, unit) payload" where
  "example_payload flag =
     \<lparr>payload_config = Some \<lparr>database = Some \<lparr>queryDrafts_2_0 = flag\<rparr>\<rparr>,
      mongoOptions = None,
      versions = (\<lambda>slug. if slug = ''posts'' then Some example_model else None)\<rparr>"

definition example_pagination ::
  "(string \<times> string) list option \<Rightarrow> (string \<times> string) list option paginate_options" where
  "example_pagination s =
     \<lparr>sort_option = s, lean = None, leanWithId = None, useFacet = None,
      other_options = [(''limit'', JNum 10)]\<rparr>"

definition example_args ::
  "bool option \<Rightarrow> Where option \<Rightarrow> access_result \<Rightarrow>
   (string \<times> string) list option paginate_options option \<Rightarrow> (Where, unit) args" where
  "example_args flag w ar po =
     \<lparr>accessResult = ar, collection_slug = ''posts'', req = (), overrideAccess = False,
      paginationOptions = po, payload = example_payload flag, where_arg = w\<rparr>"

section \<open>Properties\<close>

subsection \<open>Object literals\<close>

lemma map_of_set_prop: "map_of (set_prop k v ps) = (map_of ps)(k \<mapsto> v)"
  by (induction ps) auto

lemma get_prop_set_prop:
  "get_prop (set_prop k v ps) k' = (if k' = k then Some v else get_prop ps k')"
  by (simp add: get_prop_def map_of_set_prop)

lemma get_prop_spread_other:
  "k \<notin> fst ` set src \<Longrightarrow> get_prop (spread src target) k = get_prop target k"
  unfolding spread_def
  by (induction src arbitrary: target) (auto simp: get_prop_set_prop)

subsection \<open>The aggregation resolves the latest version before it filters\<close>

lemma u_id_first_of_group: "u_id (first_of_group d) = group_key d"
  by (simp add: first_of_group_def)

text \<open>
  In a list sorted by \<open>updatedAt\<close> descending, the row kept for a group is built from a
  record that no record of the same group is newer than.
\<close>

lemma group_first_latest:
  "sorted_wrt (\<lambda>a b. updatedAt b \<le> updatedAt a) ds \<Longrightarrow> r \<in> set (group_first ds) \<Longrightarrow>
   \<exists>d \<in> set ds. r = first_of_group d \<and>
      (\<forall>d' \<in> set ds. group_key d' = group_key d \<longrightarrow> updatedAt d' \<le> updatedAt d)"
proof (induction ds arbitrary: r rule: group_first.induct)
  case 1
  then show ?case by simp
next
  case (2 d ds)
  let ?others = "filter (\<lambda>d'. group_key d' \<noteq> group_key d) ds"
  from "2.prems"(1) have below: "\<forall>d' \<in> set ds. updatedAt d' \<le> updatedAt d"
    and sorted_ds: "sorted_wrt (\<lambda>a b. updatedAt b \<le> updatedAt a) ds"
    by simp_all
  show ?case
  proof (cases "r = first_of_group d")
    case True
    with below show ?thesis by auto
  next
    case False
    with "2.prems"(2) have "r \<in> set (group_first ?others)" by simp
    moreover have "sorted_wrt (\<lambda>a b. updatedAt b \<le> updatedAt a) ?others"
      using sorted_ds by (rule sorted_wrt_filter)
    ultimately obtain e where e: "e \<in> set ?others" "r = first_of_group e"
      "\<forall>d' \<in> set ?others. group_key d' = group_key e \<longrightarrow> updatedAt d' \<le> updatedAt e"
      using "2.IH" by blast
    from e(1) have "e \<in> set ds" "group_key e \<noteq> group_key d" by simp_all
    with e(2,3) show ?thesis by auto
  qed
qed

lemma group_first_keys: "u_id ` set (group_first ds) = group_key ` set ds"
proof (induction ds rule: group_first.induct)
  case 1
  then show ?case by simp
next
  case (2 d ds)
  have "group_key ` set (d # ds) =
        insert (group_key d) (group_key ` set (filter (\<lambda>d'. group_key d' \<noteq> group_key d) ds))"
    by auto
  with 2 show ?case by (simp add: u_id_first_of_group)
qed

lemma group_first_distinct: "distinct (map u_id (group_first ds))"
proof (induction ds rule: group_first.induct)
  case 1
  then show ?case by simp
next
  case (2 d ds)
  have "group_key d \<notin> u_id ` set (group_first (filter (\<lambda>d'. group_key d' \<noteq> group_key d) ds))"
    by (auto simp: group_first_keys)
  with 2 show ?case by (simp add: u_id_first_of_group)
qed

lemma run_pipeline_aggregate:
  "run_pipeline matches (aggregate_pipeline q) store =
   filter (matches q) (group_first (sort_key (\<lambda>d. - updatedAt d) store))"
  by (simp add: run_pipeline_def aggregate_pipeline_def)

lemma sorted_desc_sort_key:
  "sorted_wrt (\<lambda>a b. updatedAt b \<le> updatedAt a)
     (sort_key (\<lambda>d. - updatedAt d) (store :: version_doc list))"
proof -
  have "sorted (map (\<lambda>d. - updatedAt d) (sort_key (\<lambda>d. - updatedAt d) store))"
    by (rule sorted_sort_key)
  then show ?thesis by (simp add: sorted_map)
qed

lemma pipeline_row_latest:
  assumes "r \<in> set (run_pipeline matches (aggregate_pipeline q) store)"
  shows "matches q r \<and>
         (\<exists>d \<in> set store. r = first_of_group d \<and>
            (\<forall>d' \<in> set store. group_key d' = group_key d \<longrightarrow> updatedAt d' \<le> updatedAt d))"
proof -
  from assms have m: "matches q r"
    and g: "r \<in> set (group_first (sort_key (\<lambda>d. - updatedAt d) store))"
    by (simp_all add: run_pipeline_aggregate)
  from group_first_latest [OF sorted_desc_sort_key g] m show ?thesis by simp
qed

text \<open>
  The pipeline run on a store, whatever the query matches: every row that comes out
  satisfies the query and is the row of a record that no record of the same parent is newer
  than; there is one row per parent at most; a parent none of whose newest records
  satisfies the query has no row; a parent all of whose newest records satisfy it has one.
\<close>

lemma run_pipeline_resolved_latest:
  "aggregate_pipeline q = [Sort_updatedAt_desc, Group_parent_first, Match q] \<and>
   (\<forall>r \<in> set (run_pipeline matches (aggregate_pipeline q) store).
      matches q r \<and>
      (\<exists>d \<in> set store. r = first_of_group d \<and>
         (\<forall>d' \<in> set store. group_key d' = group_key d \<longrightarrow> updatedAt d' \<le> updatedAt d))) \<and>
   distinct (map u_id (run_pipeline matches (aggregate_pipeline q) store)) \<and>
   (\<forall>p. (\<forall>d \<in> set store.
           group_key d = p \<and>
           (\<forall>d' \<in> set store. group_key d' = p \<longrightarrow> updatedAt d' \<le> updatedAt d) \<longrightarrow>
           \<not> matches q (first_of_group d)) \<longrightarrow>
        p \<notin> u_id ` set (run_pipeline matches (aggregate_pipeline q) store)) \<and>
   (\<forall>p \<in> group_key ` set store.
        (\<forall>d \<in> set store.
           group_key d = p \<and>
           (\<forall>d' \<in> set store. group_key d' = p \<longrightarrow> updatedAt d' \<le> updatedAt d) \<longrightarrow>
           matches q (first_of_group d)) \<longrightarrow>
        p \<in> u_id ` set (run_pipeline matches (aggregate_pipeline q) store))"
proof -
  let ?rows = "run_pipeline matches (aggregate_pipeline q) store"
  let ?groups = "group_first (sort_key (\<lambda>d. - updatedAt d) store)"
  have order: "aggregate_pipeline q = [Sort_updatedAt_desc, Group_parent_first, Match q]"
    by (simp add: aggregate_pipeline_def)
  have rows: "\<forall>r \<in> set ?rows. matches q r \<and>
      (\<exists>d \<in> set store. r = first_of_group d \<and>
         (\<forall>d' \<in> set store. group_key d' = group_key d \<longrightarrow> updatedAt d' \<le> updatedAt d))"
    by (intro ballI) (rule pipeline_row_latest)
  have dist: "distinct (map u_id ?rows)"
    by (simp add: run_pipeline_aggregate distinct_map_filter group_first_distinct)
  have excl: "p \<notin> u_id ` set ?rows"
    if h: "\<forall>d \<in> set store.
           group_key d = p \<and>
           (\<forall>d' \<in> set store. group_key d' = p \<longrightarrow> updatedAt d' \<le> updatedAt d) \<longrightarrow>
           \<not> matches q (first_of_group d)" for p
  proof
    assume "p \<in> u_id ` set ?rows"
    then obtain r where r: "r \<in> set ?rows" "u_id r = p" by auto
    from pipeline_row_latest [OF r(1)] obtain d where d: "matches q r" "d \<in> set store"
      "r = first_of_group d"
      "\<forall>d' \<in> set store. group_key d' = group_key d \<longrightarrow> updatedAt d' \<le> updatedAt d"
      by blast
    from r(2) d(3) have "group_key d = p" by (simp add: u_id_first_of_group)
    with h d show False by blast
  qed
  have incl: "p \<in> u_id ` set ?rows"
    if p: "p \<in> group_key ` set store"
    and h: "\<forall>d \<in> set store.
           group_key d = p \<and>
           (\<forall>d' \<in> set store. group_key d' = p \<longrightarrow> updatedAt d' \<le> updatedAt d) \<longrightarrow>
           matches q (first_of_group d)" for p
  proof -
    from p have "p \<in> u_id ` set ?groups" by (simp add: group_first_keys)
    then obtain r where r: "r \<in> set ?groups" "u_id r = p" by auto
    from group_first_latest [OF sorted_desc_sort_key r(1)] obtain d where d: "d \<in> set store"
      "r = first_of_group d"
      "\<forall>d' \<in> set store. group_key d' = group_key d \<longrightarrow> updatedAt d' \<le> updatedAt d"
      by auto
    from r(2) d(2) have "group_key d = p" by (simp add: u_id_first_of_group)
    with h d have "matches q r" by blast
    with r(1) have "r \<in> set ?rows" by (simp add: run_pipeline_aggregate)
    with r(2) show ?thesis by (rule_tac x = r in image_eqI) simp_all
  qed
  from excl have excl_all: "\<forall>p. (\<forall>d \<in> set store.
           group_key d = p \<and>
           (\<forall>d' \<in> set store. group_key d' = p \<longrightarrow> updatedAt d' \<le> updatedAt d) \<longrightarrow>
           \<not> matches q (first_of_group d)) \<longrightarrow> p \<notin> u_id ` set ?rows"
    by (intro allI impI)
  from incl have incl_all: "\<forall>p \<in> group_key ` set store.
        (\<forall>d \<in> set store.
           group_key d = p \<and>
           (\<forall>d' \<in> set store. group_key d' = p \<longrightarrow> updatedAt d' \<le> updatedAt d) \<longrightarrow>
           matches q (first_of_group d)) \<longrightarrow> p \<in> u_id ` set ?rows"
    by (intro ballI impI)
  show ?thesis
    by (intro conjI order rows dist excl_all incl_all)
qed

lemmas example_defs = example_store_def where_matches_def field_value_def get_prop_def
  group_key_def first_of_group_def

lemmas example_args_defs = example_args_def example_payload_def example_model_def
  example_pagination_def spec_helpers_def spec_combineQueries_def Let_def
  hasWhereAccessResult_def narrowed_where_def aggregate_pipeline_def

lemma pipeline_excludes_parent:
  assumes "\<forall>d \<in> set store.
           group_key d = x \<and>
           (\<forall>d' \<in> set store. group_key d' = x \<longrightarrow> updatedAt d' \<le> updatedAt d) \<longrightarrow>
           \<not> matches q (first_of_group d)"
  shows "x \<notin> u_id ` set (run_pipeline matches (aggregate_pipeline q) store)"
proof
  assume "x \<in> u_id ` set (run_pipeline matches (aggregate_pipeline q) store)"
  then obtain r where r: "r \<in> set (run_pipeline matches (aggregate_pipeline q) store)" "u_id r = x"
    by auto
  from pipeline_row_latest [OF r(1)] obtain d where d: "matches q r" "d \<in> set store"
    "r = first_of_group d"
    "\<forall>d' \<in> set store. group_key d' = group_key d \<longrightarrow> updatedAt d' \<le> updatedAt d"
    by blast
  from r(2) d(3) have "group_key d = x" by (simp add: u_id_first_of_group)
  with assms d show False by blast
qed

text \<open>
  C1. Whenever the version model exists and the query builder returns a query for the
  rewritten predicates, \<open>queryDraftsV1\<close> hands the store the pipeline sort by \<open>updatedAt\<close>
  descending, then group by \<open>parent\<close> keeping the first \<open>version\<close>, \<open>updatedAt\<close> and
  \<open>createdAt\<close>, then match that query: to \<open>exec\<close> when no pagination is requested, to
  \<open>aggregatePaginate\<close> when it is. So on every store that answers with rows of the pipeline it
  is given, for every query and whatever the query matches, the docs returned are the
  normalised rows of the page, every row of the page satisfies the query and is the row of a
  record that no record of the same parent is newer than, and a parent none of whose newest
  records satisfies the query has no row, whatever its older versions satisfy.
\<close>

theorem queryDraftsV1_filters_resolved_latest:
  assumes model: "versions (payload a) (collection_slug a) = Some m"
    and args: "bq =
       \<lparr>bq_where = appendVersionToQueryKey h (case where_arg a of None \<Rightarrow> [] | Some w \<Rightarrow> w),
        bq_access =
          (case accessResult a of
             AccessWhere w \<Rightarrow> Some (AccessWhere (appendVersionToQueryKey h w))
           | AccessBool b \<Rightarrow> None),
        bq_req = req a, bq_overrideAccess = overrideAccess a\<rparr>"
    and built: "buildQuery m bq = Inr q"
    and store: "\<forall>g opts. \<exists>p. aggregatePaginate m g opts = Inr p \<and>
        set (docs p) \<subseteq> set (run_pipeline matches (pipeline g) store)"
  shows "(paginationOptions a = None \<longrightarrow>
           fst (queryDraftsV1 h a) =
             [BuildQuery bq,
              AggregateExec
                \<lparr>pipeline = [Sort_updatedAt_desc, Group_parent_first, Match q],
                 allowDiskUse = True\<rparr>]) \<and>
         (\<forall>po entries. paginationOptions a = Some po \<and> sort_option po = Some entries \<longrightarrow>
           (\<exists>opts p.
              fst (queryDraftsV1 h a) =
                [BuildQuery bq,
                 AggregatePaginate
                   \<lparr>pipeline = [Sort_updatedAt_desc, Group_parent_first, Match q],
                    allowDiskUse = True\<rparr> opts] \<and>
              aggregatePaginate m
                \<lparr>pipeline = [Sort_updatedAt_desc, Group_parent_first, Match q],
                 allowDiskUse = True\<rparr> opts = Inr p \<and>
              snd (queryDraftsV1 h a) = Inr \<lparr>docs = map normalizeV1 (docs p), rest = rest p\<rparr> \<and>
              (\<forall>r \<in> set (docs p).
                 matches q r \<and>
                 (\<exists>d \<in> set store. r = first_of_group d \<and>
                    (\<forall>d' \<in> set store. group_key d' = group_key d \<longrightarrow>
                       updatedAt d' \<le> updatedAt d))) \<and>
              (\<forall>x. (\<forall>d \<in> set store.
                      group_key d = x \<and>
                      (\<forall>d' \<in> set store. group_key d' = x \<longrightarrow> updatedAt d' \<le> updatedAt d) \<longrightarrow>
                      \<not> matches q (first_of_group d)) \<longrightarrow>
                   x \<notin> u_id ` set (docs p))))"
proof (intro conjI allI impI)
  let ?g = "\<lparr>pipeline = [Sort_updatedAt_desc, Group_parent_first, Match q], allowDiskUse = True\<rparr>"
  have access: "map_option AccessWhere
       (if hasWhereAccessResult (accessResult a)
        then map_option (appendVersionToQueryKey h) (narrowed_where (accessResult a))
        else None) = bq_access bq"
    by (simp add: args hasWhereAccessResult_def narrowed_where_def split: access_result.splits)
  have bq: "\<lparr>bq_where = appendVersionToQueryKey h (case where_arg a of None \<Rightarrow> [] | Some w \<Rightarrow> w),
        bq_access = map_option AccessWhere
          (if hasWhereAccessResult (accessResult a)
           then map_option (appendVersionToQueryKey h) (narrowed_where (accessResult a))
           else None),
        bq_req = req a, bq_overrideAccess = overrideAccess a\<rparr> = bq"
    unfolding access by (simp add: args)
  {
    assume "paginationOptions a = None"
    with model built
    show "fst (queryDraftsV1 h a) = [BuildQuery bq, AggregateExec ?g]"
      by (simp add: queryDraftsV1_def Let_def bq aggregate_pipeline_def)
  }
  fix po entries
  assume paged: "paginationOptions a = Some po \<and> sort_option po = Some entries"
  let ?opts = "\<lparr>sort_option = foldl sortReducer [] entries, lean = lean po,
                 leanWithId = leanWithId po,
                 useFacet = Option.bind (mongoOptions (payload a)) mongo_useFacet,
                 other_options = other_options po\<rparr>"
  from store obtain p where p: "aggregatePaginate m ?g ?opts = Inr p"
    "set (docs p) \<subseteq> set (run_pipeline matches (pipeline ?g) store)"
    by blast
  from p(2) have sub: "set (docs p) \<subseteq> set (run_pipeline matches (aggregate_pipeline q) store)"
    by (simp add: aggregate_pipeline_def)
  from model built paged p(1)
  have run: "queryDraftsV1 h a =
      ([BuildQuery bq, AggregatePaginate ?g ?opts],
       Inr \<lparr>docs = map normalizeV1 (docs p), rest = rest p\<rparr>)"
    by (simp add: queryDraftsV1_def Let_def bq aggregate_pipeline_def reduce_sort_def
        map_docs_def docs_of_def rest_of_def)
  have rows: "\<forall>r \<in> set (docs p).
                 matches q r \<and>
                 (\<exists>d \<in> set store. r = first_of_group d \<and>
                    (\<forall>d' \<in> set store. group_key d' = group_key d \<longrightarrow>
                       updatedAt d' \<le> updatedAt d))"
  proof
    fix r assume "r \<in> set (docs p)"
    with sub have "r \<in> set (run_pipeline matches (aggregate_pipeline q) store)" by blast
    then show "matches q r \<and>
                 (\<exists>d \<in> set store. r = first_of_group d \<and>
                    (\<forall>d' \<in> set store. group_key d' = group_key d \<longrightarrow>
                       updatedAt d' \<le> updatedAt d))"
      by (rule pipeline_row_latest)
  qed
  have excl: "\<forall>x. (\<forall>d \<in> set store.
                      group_key d = x \<and>
                      (\<forall>d' \<in> set store. group_key d' = x \<longrightarrow> updatedAt d' \<le> updatedAt d) \<longrightarrow>
                      \<not> matches q (first_of_group d)) \<longrightarrow>
                   x \<notin> u_id ` set (docs p)"
  proof (intro allI impI)
    fix x
    assume "\<forall>d \<in> set store.
                      group_key d = x \<and>
                      (\<forall>d' \<in> set store. group_key d' = x \<longrightarrow> updatedAt d' \<le> updatedAt d) \<longrightarrow>
                      \<not> matches q (first_of_group d)"
    then have "x \<notin> u_id ` set (run_pipeline matches (aggregate_pipeline q) store)"
      by (rule pipeline_excludes_parent)
    with sub show "x \<notin> u_id ` set (docs p)" by blast
  qed
  show "\<exists>opts p.
              fst (queryDraftsV1 h a) = [BuildQuery bq, AggregatePaginate ?g opts] \<and>
              aggregatePaginate m ?g opts = Inr p \<and>
              snd (queryDraftsV1 h a) = Inr \<lparr>docs = map normalizeV1 (docs p), rest = rest p\<rparr> \<and>
              (\<forall>r \<in> set (docs p).
                 matches q r \<and>
                 (\<exists>d \<in> set store. r = first_of_group d \<and>
                    (\<forall>d' \<in> set store. group_key d' = group_key d \<longrightarrow>
                       updatedAt d' \<le> updatedAt d))) \<and>
              (\<forall>x. (\<forall>d \<in> set store.
                      group_key d = x \<and>
                      (\<forall>d' \<in> set store. group_key d' = x \<longrightarrow> updatedAt d' \<le> updatedAt d) \<longrightarrow>
                      \<not> matches q (first_of_group d)) \<longrightarrow>
                   x \<notin> u_id ` set (docs p))"
    using run p(1) rows excl
    by (intro exI [of _ ?opts] exI [of _ p]) simp
qed

text \<open>
  On the example store with the filter "status is published": the newest version of \<open>X\<close> is
  a draft, so the result holds \<open>Y\<close> alone, although the older version of \<open>X\<close> is published;
  had the match come before the group, \<open>X\<close> would have had a row.
\<close>

theorem queryDraftsV1_filters_resolved_latest_witness:
  "versions
     (payload (example_args None (Some [Where_field ''status'' [(''equals'', JStr ''published'')]])
        (AccessBool True) (Some (example_pagination (Some [])))))
     (collection_slug (example_args None (Some [Where_field ''status'' [(''equals'', JStr ''published'')]])
        (AccessBool True) (Some (example_pagination (Some []))))) = Some example_model \<and>
   buildQuery example_model
     \<lparr>bq_where = [Where_field ''version.status'' [(''equals'', JStr ''published'')]],
      bq_access = None, bq_req = (), bq_overrideAccess = False\<rparr> =
     Inr [Where_field ''version.status'' [(''equals'', JStr ''published'')]] \<and>
   queryDraftsV1 spec_helpers
     (example_args None (Some [Where_field ''status'' [(''equals'', JStr ''published'')]])
        (AccessBool True) (Some (example_pagination (Some [])))) =
     ([BuildQuery
         \<lparr>bq_where = [Where_field ''version.status'' [(''equals'', JStr ''published'')]],
          bq_access = None, bq_req = (), bq_overrideAccess = False\<rparr>,
       AggregatePaginate
         \<lparr>pipeline =
            [Sort_updatedAt_desc, Group_parent_first,
             Match [Where_field ''version.status'' [(''equals'', JStr ''published'')]]],
          allowDiskUse = True\<rparr>
         \<lparr>sort_option = [], lean = None, leanWithId = None, useFacet = None,
          other_options = [(''limit'', JNum 10)]\<rparr>],
      Inr \<lparr>docs = [normalizeV1 (first_of_group (example_store ! 2))], rest = []\<rparr>) \<and>
   fst (queryDraftsV1 spec_helpers
     (example_args None (Some [Where_field ''status'' [(''equals'', JStr ''published'')]])
        (AccessBool True) None)) =
     [BuildQuery
        \<lparr>bq_where = [Where_field ''version.status'' [(''equals'', JStr ''published'')]],
         bq_access = None, bq_req = (), bq_overrideAccess = False\<rparr>,
      AggregateExec
        \<lparr>pipeline =
           [Sort_updatedAt_desc, Group_parent_first,
            Match [Where_field ''version.status'' [(''equals'', JStr ''published'')]]],
         allowDiskUse = True\<rparr>] \<and>
   group_key (example_store ! 0) = JStr ''X'' \<and>
   where_matches [Where_field ''version.status'' [(''equals'', JStr ''published'')]]
     (first_of_group (example_store ! 0)) \<and>
   JStr ''X'' \<notin> u_id ` set (run_pipeline where_matches
      [Sort_updatedAt_desc, Group_parent_first,
       Match [Where_field ''version.status'' [(''equals'', JStr ''published'')]]] example_store) \<and>
   JStr ''X'' \<in> u_id ` set (run_pipeline where_matches
      [Sort_updatedAt_desc, Match [Where_field ''version.status'' [(''equals'', JStr ''published'')]],
       Group_parent_first] example_store)"
proof -
  let ?w = "Some [Where_field ''status'' [(''equals'', JStr ''published'')]]"
  let ?q = "[Where_field ''version.status'' [(''equals'', JStr ''published'')]]"
  let ?a = "example_args None ?w (AccessBool True) (Some (example_pagination (Some [])))
              :: (Where, unit) args"
  let ?unpaged = "example_args None ?w (AccessBool True) None :: (Where, unit) args"
  let ?bq = "\<lparr>bq_where = ?q, bq_access = None, bq_req = (), bq_overrideAccess = False\<rparr>"
  let ?g = "\<lparr>pipeline = [Sort_updatedAt_desc, Group_parent_first, Match ?q], allowDiskUse = True\<rparr>"
  have model: "versions (payload ?a) (collection_slug ?a) = Some example_model"
    and model0: "versions (payload ?unpaged) (collection_slug ?unpaged) = Some example_model"
    by (simp_all add: example_args_def example_payload_def)
  have args: "?bq =
       \<lparr>bq_where = appendVersionToQueryKey spec_helpers (case where_arg ?a of None \<Rightarrow> [] | Some w \<Rightarrow> w),
        bq_access =
          (case accessResult ?a of
             AccessWhere w \<Rightarrow> Some (AccessWhere (appendVersionToQueryKey spec_helpers w))
           | AccessBool b \<Rightarrow> None),
        bq_req = req ?a, bq_overrideAccess = overrideAccess ?a\<rparr>"
    and args0: "?bq =
       \<lparr>bq_where = appendVersionToQueryKey spec_helpers (case where_arg ?unpaged of None \<Rightarrow> [] | Some w \<Rightarrow> w),
        bq_access =
          (case accessResult ?unpaged of
             AccessWhere w \<Rightarrow> Some (AccessWhere (appendVersionToQueryKey spec_helpers w))
           | AccessBool b \<Rightarrow> None),
        bq_req = req ?unpaged, bq_overrideAccess = overrideAccess ?unpaged\<rparr>"
    by (simp_all add: example_args_def spec_helpers_def)
  have built: "buildQuery example_model ?bq = Inr ?q"
    by (simp add: example_model_def)
  have store: "\<forall>g opts. \<exists>p. aggregatePaginate example_model g opts = Inr p \<and>
        set (docs p) \<subseteq> set (run_pipeline where_matches (pipeline g) example_store)"
    by (simp add: example_model_def)
  have newest_fails: "\<forall>d \<in> set example_store.
      group_key d = JStr ''X'' \<and>
      (\<forall>d' \<in> set example_store. group_key d' = JStr ''X'' \<longrightarrow> updatedAt d' \<le> updatedAt d) \<longrightarrow>
      \<not> where_matches ?q (first_of_group d)"
    by (simp add: example_defs)
  have "paginationOptions ?a = Some (example_pagination (Some []))"
    by (simp add: example_args_def)
  moreover have "sort_option (example_pagination (Some [])
      :: (string \<times> string) list option paginate_options) = Some []"
    by (simp add: example_pagination_def)
  ultimately have paged: "paginationOptions ?a = Some (example_pagination (Some [])) \<and>
      sort_option (example_pagination (Some [])
        :: (string \<times> string) list option paginate_options) = Some []"
    by (rule conjI)
  note t = queryDraftsV1_filters_resolved_latest [OF model args built store]
  note t0 = queryDraftsV1_filters_resolved_latest [OF model0 args0 built store]
  from t paged obtain opts p where
    calls: "fst (queryDraftsV1 spec_helpers ?a) = [BuildQuery ?bq, AggregatePaginate ?g opts]"
    and page: "aggregatePaginate example_model ?g opts = Inr p"
    and res: "snd (queryDraftsV1 spec_helpers ?a) =
        Inr \<lparr>docs = map normalizeV1 (docs p), rest = rest p\<rparr>"
    and excl: "\<forall>x. (\<forall>d \<in> set example_store.
                      group_key d = x \<and>
                      (\<forall>d' \<in> set example_store. group_key d' = x \<longrightarrow> updatedAt d' \<le> updatedAt d) \<longrightarrow>
                      \<not> where_matches ?q (first_of_group d)) \<longrightarrow>
                   x \<notin> u_id ` set (docs p)"
    by blast
  from page have p: "docs p = run_pipeline where_matches (pipeline ?g) example_store"
    by (auto simp: example_model_def)
  from excl newest_fails have "JStr ''X'' \<notin> u_id ` set (docs p)" by blast
  with p have x_out: "JStr ''X'' \<notin> u_id ` set (run_pipeline where_matches
      [Sort_updatedAt_desc, Group_parent_first, Match ?q] example_store)"
    by simp
  have opts: "fst (queryDraftsV1 spec_helpers ?a) =
      [BuildQuery ?bq, AggregatePaginate ?g
         \<lparr>sort_option = [], lean = None, leanWithId = None, useFacet = None,
          other_options = [(''limit'', JNum 10)]\<rparr>]"
    by (simp add: queryDraftsV1_def example_args_defs reduce_sort_def)
  have rows: "run_pipeline where_matches (pipeline ?g) example_store =
      [first_of_group (example_store ! 2)]"
    by (simp add: run_pipeline_def example_defs)
  from res p rows page have "snd (queryDraftsV1 spec_helpers ?a) =
      Inr \<lparr>docs = [normalizeV1 (first_of_group (example_store ! 2))], rest = []\<rparr>"
    by (auto simp: example_model_def)
  with opts have full: "queryDraftsV1 spec_helpers ?a =
     ([BuildQuery ?bq, AggregatePaginate ?g
         \<lparr>sort_option = [], lean = None, leanWithId = None, useFacet = None,
          other_options = [(''limit'', JNum 10)]\<rparr>],
      Inr \<lparr>docs = [normalizeV1 (first_of_group (example_store ! 2))], rest = []\<rparr>)"
    by (simp add: prod_eq_iff)
  have "paginationOptions ?unpaged = None" by (simp add: example_args_def)
  with t0 have exec: "fst (queryDraftsV1 spec_helpers ?unpaged) = [BuildQuery ?bq, AggregateExec ?g]"
    by blast
  have key: "group_key (example_store ! 0) = JStr ''X''"
    and older: "where_matches ?q (first_of_group (example_store ! 0))"
    by (simp_all add: example_defs)
  have x_in: "JStr ''X'' \<in> u_id ` set (run_pipeline where_matches
      [Sort_updatedAt_desc, Match ?q, Group_parent_first] example_store)"
    by (simp add: run_pipeline_def example_defs)
  from model built full exec key older x_out x_in show ?thesis by (intro conjI)
qed

subsection \<open>Sort keys handed to the paginator\<close>

lemma set_prop_new: "k \<notin> fst ` set ps \<Longrightarrow> set_prop k v ps = ps @ [(k, v)]"
  by (induction ps) auto

lemma foldl_set_prop_inj:
  assumes "inj f"
  shows "distinct (map fst es) \<Longrightarrow> fst ` set ds \<inter> fst ` set es = {} \<Longrightarrow>
     foldl (\<lambda>acc e. set_prop (f (fst e)) (g (snd e)) acc) (map (\<lambda>e. (f (fst e), g (snd e))) ds) es =
     map (\<lambda>e. (f (fst e), g (snd e))) (ds @ es)"
proof (induction es arbitrary: ds)
  case Nil
  then show ?case by simp
next
  case (Cons e es)
  from Cons.prems(2) have "fst e \<notin> fst ` set ds" by auto
  with assms have "f (fst e) \<notin> fst ` set (map (\<lambda>e. (f (fst e), g (snd e))) ds)"
    by (auto simp: image_iff dest: injD)
  then have step: "set_prop (f (fst e)) (g (snd e)) (map (\<lambda>e. (f (fst e), g (snd e))) ds) =
      map (\<lambda>e. (f (fst e), g (snd e))) (ds @ [e])"
    by (simp add: set_prop_new)
  from Cons.prems have "distinct (map fst es)" "fst ` set (ds @ [e]) \<inter> fst ` set es = {}"
    by auto
  then have "foldl (\<lambda>acc e. set_prop (f (fst e)) (g (snd e)) acc)
      (map (\<lambda>e. (f (fst e), g (snd e))) (ds @ [e])) es =
     map (\<lambda>e. (f (fst e), g (snd e))) ((ds @ [e]) @ es)"
    by (rule Cons.IH)
  with step show ?case by simp
qed

lemma sort_key_inj:
  "inj (\<lambda>k. if List.member [''createdAt'', ''updatedAt'', ''_id''] k then k else ''version.'' @ k)"
  by (rule injI) (auto split: if_splits)

lemma sortReducer_set_prop:
  "sortReducer =
   (\<lambda>acc e. set_prop
      ((\<lambda>k. if List.member [''createdAt'', ''updatedAt'', ''_id''] k then k else ''version.'' @ k) (fst e))
      ((\<lambda>ord. if ord = ''asc'' then 1 else - 1) (snd e)) acc)"
  by (intro ext) (simp add: sortReducer_def split: prod.splits)

lemma reduce_sort_distinct:
  assumes "distinct (map fst entries)"
  shows "reduce_sort (Some entries) =
   Inr (map (\<lambda>(k, ord). (if List.member [''createdAt'', ''updatedAt'', ''_id''] k then k else ''version.'' @ k,
                         if ord = ''asc'' then 1 else - 1)) entries)"
proof -
  have "foldl sortReducer [] entries =
     map (\<lambda>e. ((\<lambda>k. if List.member [''createdAt'', ''updatedAt'', ''_id''] k then k else ''version.'' @ k) (fst e),
                (\<lambda>ord. if ord = ''asc'' then 1 else - 1) (snd e))) ([] @ entries)"
    unfolding sortReducer_set_prop
    using foldl_set_prop_inj [OF sort_key_inj assms, of "[]"] by simp
  then show ?thesis
    by (simp add: reduce_sort_def case_prod_beta)
qed

text \<open>
  C6, as amended. In both strategies, when pagination is requested with a sort mapping, the
  sort handed to the paginator is the caller's, entry by entry and in the same order: a key
  other than \<open>createdAt\<close>, \<open>updatedAt\<close> and \<open>_id\<close> becomes \<open>version.\<close> followed by the key,
  each of those three keys stays as it is, the token \<open>asc\<close> becomes \<open>1\<close> and every other
  token, \<open>desc\<close> among them, becomes \<open>-1\<close>. The entries of a mapping have distinct keys.
\<close>

theorem sort_keys_remapped:
  assumes "paginationOptions a = Some po" and "sort_option po = Some entries"
    and "distinct (map fst entries)"
  shows "reduce_sort (sort_option po) =
           Inr (map (\<lambda>(k, ord).
                  (if List.member [''createdAt'', ''updatedAt'', ''_id''] k then k else ''version.'' @ k,
                   if ord = ''asc'' then 1 else - 1)) entries) \<and>
         (\<forall>g opts. AggregatePaginate g opts \<in> set (fst (queryDraftsV1 h a)) \<longrightarrow>
            reduce_sort (sort_option po) = Inr (sort_option opts)) \<and>
         (\<forall>q opts. Paginate q opts \<in> set (fst (queryDraftsV2 h a)) \<longrightarrow>
            reduce_sort (sort_option po) = Inr (sort_option opts))"
proof (intro conjI allI impI)
  show "reduce_sort (sort_option po) =
           Inr (map (\<lambda>(k, ord).
                  (if List.member [''createdAt'', ''updatedAt'', ''_id''] k then k else ''version.'' @ k,
                   if ord = ''asc'' then 1 else - 1)) entries)"
    using assms(2,3) by (simp add: reduce_sort_distinct)
next
  fix g opts
  assume "AggregatePaginate g opts \<in> set (fst (queryDraftsV1 h a))"
  with assms(1) show "reduce_sort (sort_option po) = Inr (sort_option opts)"
    by (auto simp: queryDraftsV1_def Let_def split: option.splits sum.splits)
next
  fix q opts
  assume "Paginate q opts \<in> set (fst (queryDraftsV2 h a))"
  with assms(1) show "reduce_sort (sort_option po) = Inr (sort_option opts)"
    by (auto simp: queryDraftsV2_def Let_def split: option.splits sum.splits)
qed

theorem sort_keys_remapped_witness:
  "reduce_sort (Some [(''title'', ''asc''), (''createdAt'', ''desc''), (''_id'', ''asc'')]) =
     Inr [(''version.title'', 1), (''createdAt'', - 1), (''_id'', 1)] \<and>
   AggregatePaginate
     \<lparr>pipeline = aggregate_pipeline [], allowDiskUse = True\<rparr>
     \<lparr>sort_option = [(''version.title'', 1), (''createdAt'', - 1), (''_id'', 1)], lean = None,
      leanWithId = None, useFacet = None, other_options = [(''limit'', JNum 10)]\<rparr>
     \<in> set (fst (queryDraftsV1 spec_helpers
         (example_args None None (AccessBool True)
            (Some (example_pagination
               (Some [(''title'', ''asc''), (''createdAt'', ''desc''), (''_id'', ''asc'')])))))) \<and>
   Paginate [Where_field ''latest'' [(''equals'', JBool True)]]
     \<lparr>sort_option = [(''version.title'', 1), (''createdAt'', - 1), (''_id'', 1)], lean = Some True,
      leanWithId = Some True, useFacet = None, other_options = [(''limit'', JNum 10)]\<rparr>
     \<in> set (fst (queryDraftsV2 spec_helpers
         (example_args None None (AccessBool True)
            (Some (example_pagination
               (Some [(''title'', ''asc''), (''createdAt'', ''desc''), (''_id'', ''asc'')]))))))"
proof -
  let ?entries = "[(''title'', ''asc''), (''createdAt'', ''desc''), (''_id'', ''asc'')]"
  let ?po = "example_pagination (Some ?entries)"
  let ?a = "example_args None None (AccessBool True) (Some ?po) :: (Where, unit) args"
  have 1: "paginationOptions ?a = Some ?po" by (simp add: example_args_def)
  have 2: "sort_option ?po = Some ?entries" by (simp add: example_pagination_def)
  have 3: "distinct (map fst ?entries)" by simp
  from sort_keys_remapped [OF 1 2 3, of spec_helpers]
  have "reduce_sort (sort_option ?po) =
          Inr [(''version.title'', 1), (''createdAt'', - 1), (''_id'', 1)]"
    by simp
  with 2 have r: "reduce_sort (Some ?entries) =
          Inr [(''version.title'', 1), (''createdAt'', - 1), (''_id'', 1)]"
    by simp
  then show ?thesis
    by (simp add: queryDraftsV1_def queryDraftsV2_def example_args_defs)
qed

text \<open>
  The key \<open>id\<close>, without the underscore, is not one of the three: it is handed on as
  \<open>version.id\<close>.
\<close>

theorem sort_key_id_is_remapped:
  "reduce_sort (Some [(''id'', ''desc'')]) = Inr [(''version.id'', - 1)] \<and>
   fst (queryDraftsV1 spec_helpers
          (example_args None None (AccessBool True)
             (Some (example_pagination (Some [(''id'', ''desc'')]))))) =
     [BuildQuery \<lparr>bq_where = [], bq_access = None, bq_req = (), bq_overrideAccess = False\<rparr>,
      AggregatePaginate
        \<lparr>pipeline = [Sort_updatedAt_desc, Group_parent_first, Match []], allowDiskUse = True\<rparr>
        \<lparr>sort_option = [(''version.id'', - 1)], lean = None, leanWithId = None, useFacet = None,
         other_options = [(''limit'', JNum 10)]\<rparr>]"
  by (simp add: reduce_sort_def sortReducer_def queryDraftsV1_def example_args_defs
      aggregate_pipeline_def)

subsection \<open>What a normalised row takes from the metadata\<close>

lemma normalizeV1_timestamps:
  "get_prop (normalizeV1 doc) ''updatedAt'' = Some (JDate (updatedAt doc)) \<and>
   get_prop (normalizeV1 doc) ''createdAt'' = Some (JDate (createdAt doc))"
  by (simp add: normalizeV1_def get_prop_set_prop)

lemma normalizeV2_timestamps:
  "get_prop (normalizeV2 doc) ''updatedAt'' = Some (JDate (updatedAt doc)) \<and>
   get_prop (normalizeV2 doc) ''createdAt'' = Some (JDate (createdAt doc))"
  by (simp add: normalizeV2_def get_prop_set_prop)

lemma normalizeV1_id:
  "''_id'' \<notin> fst ` set (version doc) \<Longrightarrow> get_prop (normalizeV1 doc) ''_id'' = Some (u_id doc)"
  by (simp add: normalizeV1_def get_prop_set_prop get_prop_spread_other) (simp add: get_prop_def)

lemma normalizeV2_u_id:
  "''_id'' \<notin> fst ` set (version doc) \<Longrightarrow> get_prop (normalizeV2 doc) ''_id'' = Some (parent doc)"
  by (simp add: normalizeV2_def get_prop_set_prop get_prop_spread_other) (simp add: get_prop_def)

lemma normalizeV2_id:
  "''id'' \<notin> fst ` set (version doc) \<Longrightarrow> get_prop (normalizeV2 doc) ''id'' = Some (parent doc)"
  by (simp add: normalizeV2_def get_prop_set_prop get_prop_spread_other) (simp add: get_prop_def)

lemma queryDraftsV1_docs_page:
  assumes "snd (queryDraftsV1 h a) = Inr res"
  shows "\<exists>m g opts p. versions (payload a) (collection_slug a) = Some m \<and>
      last (fst (queryDraftsV1 h a)) = AggregatePaginate g opts \<and>
      aggregatePaginate m g opts = Inr p \<and>
      res = \<lparr>docs = map normalizeV1 (docs p), rest = rest p\<rparr>"
proof -
  define bq where "bq =
     \<lparr>bq_where = appendVersionToQueryKey h (case where_arg a of None \<Rightarrow> [] | Some w \<Rightarrow> w),
      bq_access = map_option AccessWhere
        (if hasWhereAccessResult (accessResult a)
         then map_option (appendVersionToQueryKey h) (narrowed_where (accessResult a))
         else None),
      bq_req = req a, bq_overrideAccess = overrideAccess a\<rparr>"
  from assms obtain m where m: "versions (payload a) (collection_slug a) = Some m"
    by (cases "versions (payload a) (collection_slug a)") (auto simp: queryDraftsV1_def)
  from assms m obtain q where q: "buildQuery m bq = Inr q"
    by (cases "buildQuery m bq") (auto simp: queryDraftsV1_def Let_def bq_def)
  define g where "g = \<lparr>pipeline = aggregate_pipeline q, allowDiskUse = True\<rparr>"
  from assms m q obtain po where po: "paginationOptions a = Some po"
    by (cases "paginationOptions a")
       (auto simp: queryDraftsV1_def Let_def bq_def map_docs_def docs_of_def)
  from assms m q po obtain s where s: "reduce_sort (sort_option po) = Inr s"
    by (cases "reduce_sort (sort_option po)") (auto simp: queryDraftsV1_def Let_def bq_def)
  define opts where "opts =
     \<lparr>sort_option = s, lean = lean po, leanWithId = leanWithId po,
      useFacet = Option.bind (mongoOptions (payload a)) mongo_useFacet,
      other_options = other_options po\<rparr>"
  from assms m q po s obtain p where p: "aggregatePaginate m g opts = Inr p"
    by (cases "aggregatePaginate m g opts")
       (auto simp: queryDraftsV1_def Let_def bq_def g_def opts_def)
  from m q po s p have "queryDraftsV1 h a =
      ([BuildQuery bq, AggregatePaginate g opts],
       Inr \<lparr>docs = map normalizeV1 (docs p), rest = rest p\<rparr>)"
    by (simp add: queryDraftsV1_def Let_def bq_def g_def opts_def map_docs_def docs_of_def
        rest_of_def)
  with assms m p show ?thesis by auto
qed

lemma queryDraftsV2_docs_page:
  assumes "snd (queryDraftsV2 h a) = Inr res"
  shows "\<exists>m q p. versions (payload a) (collection_slug a) = Some m \<and>
      ((\<exists>opts. last (fst (queryDraftsV2 h a)) = Paginate q opts \<and> paginate m q opts = Inr p) \<or>
       (last (fst (queryDraftsV2 h a)) = Find q \<and> find m q = Inr (Paginated p))) \<and>
      res = \<lparr>docs = map normalizeV2 (docs p), rest = rest p\<rparr>"
proof -
  define bq where "bq =
     \<lparr>bq_where =
        combineQueries h [Where_field ''latest'' [(''equals'', JBool True)]] (where_arg a),
      bq_access = Some (accessResult a), bq_req = req a,
      bq_overrideAccess = overrideAccess a\<rparr>"
  from assms obtain m where m: "versions (payload a) (collection_slug a) = Some m"
    by (cases "versions (payload a) (collection_slug a)") (auto simp: queryDraftsV2_def)
  from assms m obtain q where q: "buildQuery m bq = Inr q"
    by (cases "buildQuery m bq") (auto simp: queryDraftsV2_def Let_def bq_def)
  show ?thesis
  proof (cases "paginationOptions a")
    case None
    with assms m q obtain r where r: "find m q = Inr r"
      by (cases "find m q") (auto simp: queryDraftsV2_def Let_def bq_def)
    with assms m q None obtain p where p: "r = Paginated p"
      by (cases r) (auto simp: queryDraftsV2_def Let_def bq_def map_docs_def docs_of_def)
    with m q None r have "queryDraftsV2 h a =
        ([BuildQuery bq, Find q], Inr \<lparr>docs = map normalizeV2 (docs p), rest = rest p\<rparr>)"
      by (simp add: queryDraftsV2_def Let_def bq_def map_docs_def docs_of_def rest_of_def)
    with assms m r p show ?thesis by auto
  next
    case (Some po)
    with assms m q obtain s where s: "reduce_sort (sort_option po) = Inr s"
      by (cases "reduce_sort (sort_option po)") (auto simp: queryDraftsV2_def Let_def bq_def)
    define opts where "opts =
       \<lparr>sort_option = s, lean = Some True, leanWithId = Some True,
        useFacet = Option.bind (mongoOptions (payload a)) mongo_useFacet,
        other_options = other_options po\<rparr>"
    from assms m q Some s obtain p where p: "paginate m q opts = Inr p"
      by (cases "paginate m q opts") (auto simp: queryDraftsV2_def Let_def bq_def opts_def)
    with m q Some s have "queryDraftsV2 h a =
        ([BuildQuery bq, Paginate q opts], Inr \<lparr>docs = map normalizeV2 (docs p), rest = rest p\<rparr>)"
      by (simp add: queryDraftsV2_def Let_def bq_def opts_def map_docs_def docs_of_def rest_of_def)
    with assms m p show ?thesis by auto
  qed
qed

text \<open>
  C2, as amended. The docs of a result of either strategy are the normalised rows of the
  page the store returned to its last call (\<open>aggregatePaginate\<close>; \<open>paginate\<close> or \<open>find\<close>), and the
  other properties of the page are passed on. In a normalised row \<open>updatedAt\<close> and \<open>createdAt\<close> are those of the store's row, whatever the
  payload \<open>version\<close> holds; \<open>_id\<close> (and \<open>id\<close> under the flag strategy) is the row's group key or
  parent when the payload has no property of that name.
\<close>

theorem metadata_timestamps_win:
  "(\<forall>res. snd (queryDraftsV1 h a) = Inr res \<longrightarrow>
      (\<exists>m g opts p. versions (payload a) (collection_slug a) = Some m \<and>
         last (fst (queryDraftsV1 h a)) = AggregatePaginate g opts \<and>
         aggregatePaginate m g opts = Inr p \<and>
         res = \<lparr>docs = map normalizeV1 (docs p), rest = rest p\<rparr>)) \<and>
   (\<forall>res. snd (queryDraftsV2 h a) = Inr res \<longrightarrow>
      (\<exists>m q p. versions (payload a) (collection_slug a) = Some m \<and>
         ((\<exists>opts. last (fst (queryDraftsV2 h a)) = Paginate q opts \<and> paginate m q opts = Inr p) \<or>
          (last (fst (queryDraftsV2 h a)) = Find q \<and> find m q = Inr (Paginated p))) \<and>
         res = \<lparr>docs = map normalizeV2 (docs p), rest = rest p\<rparr>)) \<and>
   get_prop (normalizeV1 doc) ''updatedAt'' = Some (JDate (updatedAt doc)) \<and>
   get_prop (normalizeV1 doc) ''createdAt'' = Some (JDate (createdAt doc)) \<and>
   get_prop (normalizeV2 doc) ''updatedAt'' = Some (JDate (updatedAt doc)) \<and>
   get_prop (normalizeV2 doc) ''createdAt'' = Some (JDate (createdAt doc)) \<and>
   (''_id'' \<notin> fst ` set (version doc) \<longrightarrow>
      get_prop (normalizeV1 doc) ''_id'' = Some (u_id doc) \<and>
      get_prop (normalizeV2 doc) ''_id'' = Some (parent doc)) \<and>
   (''id'' \<notin> fst ` set (version doc) \<longrightarrow> get_prop (normalizeV2 doc) ''id'' = Some (parent doc))"
proof (intro conjI allI impI)
  fix res
  assume "snd (queryDraftsV1 h a) = Inr res"
  then show "\<exists>m g opts p. versions (payload a) (collection_slug a) = Some m \<and>
         last (fst (queryDraftsV1 h a)) = AggregatePaginate g opts \<and>
         aggregatePaginate m g opts = Inr p \<and>
         res = \<lparr>docs = map normalizeV1 (docs p), rest = rest p\<rparr>"
    by (rule queryDraftsV1_docs_page)
next
  fix res
  assume "snd (queryDraftsV2 h a) = Inr res"
  then show "\<exists>m q p. versions (payload a) (collection_slug a) = Some m \<and>
         ((\<exists>opts. last (fst (queryDraftsV2 h a)) = Paginate q opts \<and> paginate m q opts = Inr p) \<or>
          (last (fst (queryDraftsV2 h a)) = Find q \<and> find m q = Inr (Paginated p))) \<and>
         res = \<lparr>docs = map normalizeV2 (docs p), rest = rest p\<rparr>"
    by (rule queryDraftsV2_docs_page)
next
  show "get_prop (normalizeV1 doc) ''updatedAt'' = Some (JDate (updatedAt doc))"
    and "get_prop (normalizeV1 doc) ''createdAt'' = Some (JDate (createdAt doc))"
    by (simp_all add: normalizeV1_timestamps)
next
  show "get_prop (normalizeV2 doc) ''updatedAt'' = Some (JDate (updatedAt doc))"
    and "get_prop (normalizeV2 doc) ''createdAt'' = Some (JDate (createdAt doc))"
    by (simp_all add: normalizeV2_timestamps)
next
  assume "''_id'' \<notin> fst ` set (version doc)"
  then show "get_prop (normalizeV1 doc) ''_id'' = Some (u_id doc)"
    and "get_prop (normalizeV2 doc) ''_id'' = Some (parent doc)"
    by (simp_all add: normalizeV1_id normalizeV2_u_id)
next
  assume "''id'' \<notin> fst ` set (version doc)"
  then show "get_prop (normalizeV2 doc) ''id'' = Some (parent doc)" by (rule normalizeV2_id)
qed

theorem metadata_timestamps_win_witness:
  "snd (queryDraftsV2 spec_helpers
          (example_args None None (AccessBool True) (Some (example_pagination (Some []))))) =
     Inr \<lparr>docs = map normalizeV2 [example_store ! 2], rest = []\<rparr> \<and>
   ''_id'' \<notin> fst ` set [(''updatedAt'', JStr ''never''), (''createdAt'', JStr ''never'')] \<and>
   ''id'' \<notin> fst ` set [(''updatedAt'', JStr ''never''), (''createdAt'', JStr ''never'')] \<and>
   normalizeV1
     \<lparr>u_id = JStr ''X'', parent = JUndefined,
      version = [(''updatedAt'', JStr ''never''), (''createdAt'', JStr ''never'')],
      updatedAt = 20, createdAt = 10, latest = None\<rparr> =
     [(''_id'', JStr ''X''), (''updatedAt'', JDate 20), (''createdAt'', JDate 10)] \<and>
   get_prop (normalizeV2
     \<lparr>u_id = JStr ''v2'', parent = JStr ''X'',
      version = [(''updatedAt'', JStr ''never''), (''createdAt'', JStr ''never'')],
      updatedAt = 20, createdAt = 10, latest = Some True\<rparr>) ''updatedAt'' = Some (JDate 20) \<and>
   get_prop (normalizeV2
     \<lparr>u_id = JStr ''v2'', parent = JStr ''X'',
      version = [(''updatedAt'', JStr ''never''), (''createdAt'', JStr ''never'')],
      updatedAt = 20, createdAt = 10, latest = Some True\<rparr>) ''id'' = Some (JStr ''X'')"
proof -
  let ?a = "example_args None None (AccessBool True) (Some (example_pagination (Some [])))
              :: (Where, unit) args"
  let ?payload = "[(''updatedAt'', JStr ''never''), (''createdAt'', JStr ''never'')]"
  let ?d = "\<lparr>u_id = JStr ''v2'', parent = JStr ''X'', version = ?payload,
            updatedAt = 20, createdAt = 10, latest = Some True\<rparr>"
  have res: "snd (queryDraftsV2 spec_helpers ?a) =
     Inr \<lparr>docs = map normalizeV2 [example_store ! 2], rest = []\<rparr>"
    by (simp add: queryDraftsV2_def example_args_defs reduce_sort_def map_docs_def docs_of_def
        rest_of_def example_defs)
  have keys: "''_id'' \<notin> fst ` set ?payload" "''id'' \<notin> fst ` set ?payload"
    by simp_all
  have v1: "normalizeV1
     \<lparr>u_id = JStr ''X'', parent = JUndefined, version = ?payload,
      updatedAt = 20, createdAt = 10, latest = None\<rparr> =
     [(''_id'', JStr ''X''), (''updatedAt'', JDate 20), (''createdAt'', JDate 10)]"
    by (simp add: normalizeV1_def spread_def)
  note t = metadata_timestamps_win [of spec_helpers ?a ?d]
  from t have "get_prop (normalizeV2 ?d) ''updatedAt'' = Some (JDate (updatedAt ?d))"
    by (elim conjE)
  then have u: "get_prop (normalizeV2 ?d) ''updatedAt'' = Some (JDate 20)" by simp
  from t have "''id'' \<notin> fst ` set (version ?d) \<longrightarrow>
      get_prop (normalizeV2 ?d) ''id'' = Some (parent ?d)"
    by (elim conjE)
  with keys have i: "get_prop (normalizeV2 ?d) ''id'' = Some (JStr ''X'')" by simp
  from res keys v1 u i show ?thesis by (intro conjI)
qed

text \<open>
  A payload property named \<open>id\<close> is written after the metadata's \<open>id\<close> (line 169 comes before
  the spread of line 170), so it replaces the parent.
\<close>

theorem payload_id_overrides_metadata:
  "get_prop (normalizeV2
     \<lparr>u_id = JStr ''v3'', parent = JStr ''Y'', version = [(''id'', JStr ''Z'')],
      updatedAt = 15, createdAt = 15, latest = Some True\<rparr>) ''id'' = Some (JStr ''Z'') \<and>
   parent \<lparr>u_id = JStr ''v3'', parent = JStr ''Y'', version = [(''id'', JStr ''Z'')],
      updatedAt = 15, createdAt = 15, latest = Some True\<rparr> = JStr ''Y''"
  by (simp add: normalizeV2_def spread_def get_prop_def)

text \<open>
  C3, as amended. For every row whose payload has no property named \<open>_id\<close> (for the flag
  strategy, \<open>_id\<close> or \<open>id\<close>), the identifier of the entity is the parent: under the
  aggregation strategy the \<open>_id\<close> of the row, which is the group key, the \<open>parent\<close> of a
  record of the store; under the flag strategy the \<open>parent\<close> of the record, and the record's
  own \<open>_id\<close> is not read. The docs either strategy returns are these normalised rows of the
  page the store returned.
\<close>

theorem entity_id_is_parent:
  "(\<forall>r \<in> set (run_pipeline matches (aggregate_pipeline q) store).
      (\<exists>d \<in> set store. u_id r = group_key d \<and> (parent d \<noteq> JUndefined \<longrightarrow> u_id r = parent d)) \<and>
      (''_id'' \<notin> fst ` set (version r) \<longrightarrow> get_prop (normalizeV1 r) ''_id'' = Some (u_id r))) \<and>
   (''_id'' \<notin> fst ` set (version doc) \<longrightarrow> get_prop (normalizeV2 doc) ''_id'' = Some (parent doc)) \<and>
   (''id'' \<notin> fst ` set (version doc) \<longrightarrow> get_prop (normalizeV2 doc) ''id'' = Some (parent doc)) \<and>
   normalizeV2 (doc\<lparr>u_id := x\<rparr>) = normalizeV2 doc \<and>
   (\<forall>res. snd (queryDraftsV1 h a) = Inr res \<longrightarrow>
      (\<exists>m g opts p. versions (payload a) (collection_slug a) = Some m \<and>
         last (fst (queryDraftsV1 h a)) = AggregatePaginate g opts \<and>
         aggregatePaginate m g opts = Inr p \<and>
         docs res = map normalizeV1 (docs p) \<and>
         (\<forall>r \<in> set (docs p). ''_id'' \<notin> fst ` set (version r) \<longrightarrow>
            get_prop (normalizeV1 r) ''_id'' = Some (u_id r)))) \<and>
   (\<forall>res. snd (queryDraftsV2 h a) = Inr res \<longrightarrow>
      (\<exists>m q p. versions (payload a) (collection_slug a) = Some m \<and>
         ((\<exists>opts. last (fst (queryDraftsV2 h a)) = Paginate q opts \<and> paginate m q opts = Inr p) \<or>
          (last (fst (queryDraftsV2 h a)) = Find q \<and> find m q = Inr (Paginated p))) \<and>
         docs res = map normalizeV2 (docs p) \<and>
         (\<forall>r \<in> set (docs p).
            (''_id'' \<notin> fst ` set (version r) \<longrightarrow>
               get_prop (normalizeV2 r) ''_id'' = Some (parent r)) \<and>
            (''id'' \<notin> fst ` set (version r) \<longrightarrow>
               get_prop (normalizeV2 r) ''id'' = Some (parent r)))))"
proof (intro conjI ballI impI allI)
  fix r
  assume "r \<in> set (run_pipeline matches (aggregate_pipeline q) store)"
  from pipeline_row_latest [OF this] obtain d where "d \<in> set store" "r = first_of_group d"
    by blast
  then show "\<exists>d \<in> set store. u_id r = group_key d \<and> (parent d \<noteq> JUndefined \<longrightarrow> u_id r = parent d)"
    by (auto simp: u_id_first_of_group group_key_def)
next
  fix r :: version_doc
  assume "''_id'' \<notin> fst ` set (version r)"
  then show "get_prop (normalizeV1 r) ''_id'' = Some (u_id r)" by (rule normalizeV1_id)
next
  assume "''_id'' \<notin> fst ` set (version doc)"
  then show "get_prop (normalizeV2 doc) ''_id'' = Some (parent doc)" by (rule normalizeV2_u_id)
next
  assume "''id'' \<notin> fst ` set (version doc)"
  then show "get_prop (normalizeV2 doc) ''id'' = Some (parent doc)" by (rule normalizeV2_id)
next
  show "normalizeV2 (doc\<lparr>u_id := x\<rparr>) = normalizeV2 doc" by (simp add: normalizeV2_def)
next
  fix res
  assume "snd (queryDraftsV1 h a) = Inr res"
  from queryDraftsV1_docs_page [OF this] obtain m g opts p where
    "versions (payload a) (collection_slug a) = Some m"
    "last (fst (queryDraftsV1 h a)) = AggregatePaginate g opts"
    "aggregatePaginate m g opts = Inr p"
    "res = \<lparr>docs = map normalizeV1 (docs p), rest = rest p\<rparr>"
    by blast
  then show "\<exists>m g opts p. versions (payload a) (collection_slug a) = Some m \<and>
         last (fst (queryDraftsV1 h a)) = AggregatePaginate g opts \<and>
         aggregatePaginate m g opts = Inr p \<and>
         docs res = map normalizeV1 (docs p) \<and>
         (\<forall>r \<in> set (docs p). ''_id'' \<notin> fst ` set (version r) \<longrightarrow>
            get_prop (normalizeV1 r) ''_id'' = Some (u_id r))"
    by (intro exI [of _ m] exI [of _ g] exI [of _ opts] exI [of _ p])
       (simp add: normalizeV1_id)
next
  fix res
  assume "snd (queryDraftsV2 h a) = Inr res"
  from queryDraftsV2_docs_page [OF this] obtain m q p where
    "versions (payload a) (collection_slug a) = Some m"
    "(\<exists>opts. last (fst (queryDraftsV2 h a)) = Paginate q opts \<and> paginate m q opts = Inr p) \<or>
       (last (fst (queryDraftsV2 h a)) = Find q \<and> find m q = Inr (Paginated p))"
    "res = \<lparr>docs = map normalizeV2 (docs p), rest = rest p\<rparr>"
    by blast
  then show "\<exists>m q p. versions (payload a) (collection_slug a) = Some m \<and>
         ((\<exists>opts. last (fst (queryDraftsV2 h a)) = Paginate q opts \<and> paginate m q opts = Inr p) \<or>
          (last (fst (queryDraftsV2 h a)) = Find q \<and> find m q = Inr (Paginated p))) \<and>
         docs res = map normalizeV2 (docs p) \<and>
         (\<forall>r \<in> set (docs p).
            (''_id'' \<notin> fst ` set (version r) \<longrightarrow>
               get_prop (normalizeV2 r) ''_id'' = Some (parent r)) \<and>
            (''id'' \<notin> fst ` set (version r) \<longrightarrow>
               get_prop (normalizeV2 r) ''id'' = Some (parent r)))"
    by (intro exI [of _ m] exI [of _ q] exI [of _ p])
       (simp add: normalizeV2_u_id normalizeV2_id)
qed

theorem entity_id_is_parent_witness:
  "map (\<lambda>r. get_prop (normalizeV1 r) ''_id'') (run_pipeline where_matches (aggregate_pipeline []) example_store) =
     [Some (JStr ''X''), Some (JStr ''Y'')] \<and>
   get_prop (normalizeV2 (example_store ! 2)) ''_id'' = Some (JStr ''Y'') \<and>
   get_prop (normalizeV2 (example_store ! 2)) ''id'' = Some (JStr ''Y'') \<and>
   u_id (example_store ! 2) = JStr ''v3''"
proof -
  have rows: "run_pipeline where_matches (aggregate_pipeline []) example_store =
     [first_of_group (example_store ! 1), first_of_group (example_store ! 2)]"
    by (simp add: run_pipeline_aggregate example_defs)
  have keys: "''_id'' \<notin> fst ` set (version (first_of_group (example_store ! 1)))"
     "''_id'' \<notin> fst ` set (version (first_of_group (example_store ! 2)))"
     "''_id'' \<notin> fst ` set (version (example_store ! 2))"
     "''id'' \<notin> fst ` set (version (example_store ! 2))"
    by (simp_all add: example_defs)
  note t = entity_id_is_parent [of where_matches "[]" example_store "example_store ! 2" JNull
      spec_helpers "example_args None None (AccessBool True) None"]
  from t have rows_t: "\<forall>r \<in> set (run_pipeline where_matches (aggregate_pipeline []) example_store).
      (\<exists>d \<in> set example_store. u_id r = group_key d \<and> (parent d \<noteq> JUndefined \<longrightarrow> u_id r = parent d)) \<and>
      (''_id'' \<notin> fst ` set (version r) \<longrightarrow> get_prop (normalizeV1 r) ''_id'' = Some (u_id r))"
    by (elim conjE)
  from t have v2a: "''_id'' \<notin> fst ` set (version (example_store ! 2)) \<longrightarrow>
        get_prop (normalizeV2 (example_store ! 2)) ''_id'' = Some (parent (example_store ! 2))"
    by (elim conjE)
  from t have v2b: "''id'' \<notin> fst ` set (version (example_store ! 2)) \<longrightarrow>
        get_prop (normalizeV2 (example_store ! 2)) ''id'' = Some (parent (example_store ! 2))"
    by (elim conjE)
  from rows_t rows keys(1) have "get_prop (normalizeV1 (first_of_group (example_store ! 1))) ''_id'' =
      Some (u_id (first_of_group (example_store ! 1)))" by simp
  moreover from rows_t rows keys(2) have "get_prop (normalizeV1 (first_of_group (example_store ! 2))) ''_id'' =
      Some (u_id (first_of_group (example_store ! 2)))" by simp
  moreover from v2a v2b keys(3,4) have "get_prop (normalizeV2 (example_store ! 2)) ''_id'' = Some (parent (example_store ! 2))"
     "get_prop (normalizeV2 (example_store ! 2)) ''id'' = Some (parent (example_store ! 2))" by simp_all
  ultimately show ?thesis
    using rows by (simp add: example_defs)
qed

text \<open>
  A payload property named \<open>_id\<close> is written after the metadata's \<open>_id\<close>: here the identifier
  of the entity is the version record's own id \<open>v2\<close>, not the parent \<open>X\<close>.
\<close>

theorem payload_underscore_id_overrides_group_key:
  "get_prop (normalizeV1 (first_of_group
       \<lparr>u_id = JStr ''v2'', parent = JStr ''X'', version = [(''_id'', JStr ''v2'')],
        updatedAt = 20, createdAt = 10, latest = None\<rparr>)) ''_id'' = Some (JStr ''v2'') \<and>
   get_prop (normalizeV2
       \<lparr>u_id = JStr ''v2'', parent = JStr ''X'', version = [(''_id'', JStr ''v2'')],
        updatedAt = 20, createdAt = 10, latest = Some True\<rparr>) ''_id'' = Some (JStr ''v2'')"
  by (simp add: normalizeV1_def normalizeV2_def first_of_group_def spread_def get_prop_def)

subsection \<open>What is handed to the query builder\<close>

text \<open>
  C5. Under the flag strategy, whenever the version model exists, the first call is the one
  to the query builder, and no later call is: its \<open>where\<close> is what \<open>combineQueries\<close> returns for
  \<open>{ latest: { equals: true } }\<close> and the caller's \<open>where\<close>, and its \<open>access\<close> is the access result
  as it came, for every caller predicate and every combiner.
\<close>

theorem v2_hands_combined_where:
  assumes "versions (payload a) (collection_slug a) = Some m"
  shows "\<exists>calls. fst (queryDraftsV2 h a) =
           BuildQuery
             \<lparr>bq_where =
                combineQueries h [Where_field ''latest'' [(''equals'', JBool True)]] (where_arg a),
              bq_access = Some (accessResult a), bq_req = req a,
              bq_overrideAccess = overrideAccess a\<rparr> # calls \<and>
           list_all store_execution calls"
  using assms
  by (auto simp: queryDraftsV2_def Let_def split: option.splits sum.splits)

text \<open>
  With the combiner of the spec and a caller predicate that is not empty, the predicate
  handed over is the conjunction of the two; the access predicate keeps its keys.
\<close>

theorem v2_hands_combined_where_witness:
  "versions (payload (example_args None
       (Some [Where_field ''version.status'' [(''equals'', JStr ''published'')]])
       (AccessWhere [Where_field ''parent'' [(''equals'', JStr ''Y'')]]) None))
     (collection_slug (example_args None
       (Some [Where_field ''version.status'' [(''equals'', JStr ''published'')]])
       (AccessWhere [Where_field ''parent'' [(''equals'', JStr ''Y'')]]) None)) = Some example_model \<and>
   hd (fst (queryDraftsV2 spec_helpers (example_args None
       (Some [Where_field ''version.status'' [(''equals'', JStr ''published'')]])
       (AccessWhere [Where_field ''parent'' [(''equals'', JStr ''Y'')]]) None))) =
     BuildQuery
       \<lparr>bq_where =
          [Where_and [[Where_field ''latest'' [(''equals'', JBool True)]],
                      [Where_field ''version.status'' [(''equals'', JStr ''published'')]]]],
        bq_access = Some (AccessWhere [Where_field ''parent'' [(''equals'', JStr ''Y'')]]),
        bq_req = (), bq_overrideAccess = False\<rparr>"
proof -
  let ?a = "example_args None
       (Some [Where_field ''version.status'' [(''equals'', JStr ''published'')]])
       (AccessWhere [Where_field ''parent'' [(''equals'', JStr ''Y'')]]) None :: (Where, unit) args"
  have m: "versions (payload ?a) (collection_slug ?a) = Some example_model"
    by (simp add: example_args_def example_payload_def)
  from v2_hands_combined_where [OF m, of spec_helpers]
  have "hd (fst (queryDraftsV2 spec_helpers ?a)) =
     BuildQuery
       \<lparr>bq_where =
          [Where_and [[Where_field ''latest'' [(''equals'', JBool True)]],
                      [Where_field ''version.status'' [(''equals'', JStr ''published'')]]]],
        bq_access = Some (AccessWhere [Where_field ''parent'' [(''equals'', JStr ''Y'')]]),
        bq_req = (), bq_overrideAccess = False\<rparr>"
    by (auto simp: example_args_def spec_helpers_def spec_combineQueries_def)
  with m show ?thesis by (intro conjI)
qed

text \<open>
  C7. Under the aggregation strategy, whenever the version model exists, the first call is
  the one to the query builder, and no later call is. Its \<open>where\<close> is the caller's \<open>where\<close> (or
  the empty object) rewritten by \<open>appendVersionToQueryKey\<close>; its \<open>access\<close> is the access result
  rewritten by the same function when the access result is a predicate, and absent when it
  is a boolean, for every access result and every rewriter.
\<close>

theorem v1_hands_rewritten_access:
  assumes "versions (payload a) (collection_slug a) = Some m"
  shows "\<exists>calls. fst (queryDraftsV1 h a) =
           BuildQuery
             \<lparr>bq_where =
                appendVersionToQueryKey h (case where_arg a of None \<Rightarrow> [] | Some w \<Rightarrow> w),
              bq_access =
                (case accessResult a of
                   AccessWhere w \<Rightarrow> Some (AccessWhere (appendVersionToQueryKey h w))
                 | AccessBool b \<Rightarrow> None),
              bq_req = req a, bq_overrideAccess = overrideAccess a\<rparr> # calls \<and>
           list_all store_execution calls"
  using assms
  by (auto simp: queryDraftsV1_def Let_def hasWhereAccessResult_def narrowed_where_def
      split: option.splits sum.splits access_result.splits)

theorem v1_hands_rewritten_access_witness:
  "versions (payload (example_args None
       (Some [Where_field ''status'' [(''equals'', JStr ''published'')]])
       (AccessWhere [Where_field ''author'' [(''equals'', JStr ''me'')]]) None))
     (collection_slug (example_args None
       (Some [Where_field ''status'' [(''equals'', JStr ''published'')]])
       (AccessWhere [Where_field ''author'' [(''equals'', JStr ''me'')]]) None)) = Some example_model \<and>
   hd (fst (queryDraftsV1 spec_helpers (example_args None
       (Some [Where_field ''status'' [(''equals'', JStr ''published'')]])
       (AccessWhere [Where_field ''author'' [(''equals'', JStr ''me'')]]) None))) =
     BuildQuery
       \<lparr>bq_where = [Where_field ''version.status'' [(''equals'', JStr ''published'')]],
        bq_access = Some (AccessWhere [Where_field ''version.author'' [(''equals'', JStr ''me'')]]),
        bq_req = (), bq_overrideAccess = False\<rparr> \<and>
   versions (payload (example_args None None (AccessBool True) None))
     (collection_slug (example_args None None (AccessBool True) None)) = Some example_model \<and>
   hd (fst (queryDraftsV1 spec_helpers (example_args None None (AccessBool True) None))) =
     BuildQuery \<lparr>bq_where = [], bq_access = None, bq_req = (), bq_overrideAccess = False\<rparr>"
proof -
  let ?a = "example_args None
       (Some [Where_field ''status'' [(''equals'', JStr ''published'')]])
       (AccessWhere [Where_field ''author'' [(''equals'', JStr ''me'')]]) None :: (Where, unit) args"
  let ?b = "example_args None None (AccessBool True) None :: (Where, unit) args"
  have ma: "versions (payload ?a) (collection_slug ?a) = Some example_model"
    by (simp add: example_args_def example_payload_def)
  have mb: "versions (payload ?b) (collection_slug ?b) = Some example_model"
    by (simp add: example_args_def example_payload_def)
  from v1_hands_rewritten_access [OF ma, of spec_helpers]
  have a: "hd (fst (queryDraftsV1 spec_helpers ?a)) =
     BuildQuery
       \<lparr>bq_where = [Where_field ''version.status'' [(''equals'', JStr ''published'')]],
        bq_access = Some (AccessWhere [Where_field ''version.author'' [(''equals'', JStr ''me'')]]),
        bq_req = (), bq_overrideAccess = False\<rparr>"
    by (auto simp: example_args_def spec_helpers_def)
  from v1_hands_rewritten_access [OF mb, of spec_helpers]
  have b: "hd (fst (queryDraftsV1 spec_helpers ?b)) =
     BuildQuery \<lparr>bq_where = [], bq_access = None, bq_req = (), bq_overrideAccess = False\<rparr>"
    by (auto simp: example_args_def spec_helpers_def)
  from ma a mb b show ?thesis by (intro conjI)
qed

subsection \<open>Pagination without a sort mapping\<close>

text \<open>
  C9. When a pagination spec is supplied whose \<open>sort\<close> is absent, both strategies reject, and
  no call that executes a query on the store is made: the only call, if any, is the one to
  the query builder. The error is the TypeError of \<open>Object.entries\<close> unless the version model
  is missing (a TypeError too) or the query builder itself failed.
\<close>

theorem pagination_without_sort_rejects:
  assumes "paginationOptions a = Some po" and "sort_option po = None"
  shows "(\<exists>e. snd (queryDraftsV1 h a) = Inl e) \<and>
         \<not> list_ex store_execution (fst (queryDraftsV1 h a)) \<and>
         (\<exists>e. snd (queryDraftsV2 h a) = Inl e) \<and>
         \<not> list_ex store_execution (fst (queryDraftsV2 h a)) \<and>
         (snd (queryDraftsV1 h a) = Inl TypeError \<or>
            (\<exists>m b e. versions (payload a) (collection_slug a) = Some m \<and> buildQuery m b = Inl e \<and>
               queryDraftsV1 h a = ([BuildQuery b], Inl e))) \<and>
         (snd (queryDraftsV2 h a) = Inl TypeError \<or>
            (\<exists>m b e. versions (payload a) (collection_slug a) = Some m \<and> buildQuery m b = Inl e \<and>
               queryDraftsV2 h a = ([BuildQuery b], Inl e)))"
proof -
  have v1: "(\<exists>e. snd (queryDraftsV1 h a) = Inl e) \<and>
         \<not> list_ex store_execution (fst (queryDraftsV1 h a)) \<and>
         (snd (queryDraftsV1 h a) = Inl TypeError \<or>
            (\<exists>m b e. versions (payload a) (collection_slug a) = Some m \<and> buildQuery m b = Inl e \<and>
               queryDraftsV1 h a = ([BuildQuery b], Inl e)))"
    using assms
    by (auto simp: queryDraftsV1_def Let_def reduce_sort_def split: option.splits sum.splits)
  have v2: "(\<exists>e. snd (queryDraftsV2 h a) = Inl e) \<and>
         \<not> list_ex store_execution (fst (queryDraftsV2 h a)) \<and>
         (snd (queryDraftsV2 h a) = Inl TypeError \<or>
            (\<exists>m b e. versions (payload a) (collection_slug a) = Some m \<and> buildQuery m b = Inl e \<and>
               queryDraftsV2 h a = ([BuildQuery b], Inl e)))"
    using assms
    by (auto simp: queryDraftsV2_def Let_def reduce_sort_def split: option.splits sum.splits)
  from v1 v2 show ?thesis by (intro conjI) simp_all
qed

theorem pagination_without_sort_rejects_witness:
  "paginationOptions (example_args None None (AccessBool True) (Some (example_pagination None))) =
     Some (example_pagination None) \<and>
   sort_option (example_pagination None) = None \<and>
   queryDraftsV1 spec_helpers
     (example_args None None (AccessBool True) (Some (example_pagination None))) =
     ([BuildQuery \<lparr>bq_where = [], bq_access = None, bq_req = (), bq_overrideAccess = False\<rparr>],
      Inl TypeError) \<and>
   queryDraftsV2 spec_helpers
     (example_args None None (AccessBool True) (Some (example_pagination None))) =
     ([BuildQuery \<lparr>bq_where = [Where_field ''latest'' [(''equals'', JBool True)]],
         bq_access = Some (AccessBool True), bq_req = (), bq_overrideAccess = False\<rparr>],
      Inl TypeError)"
proof -
  let ?a = "example_args None None (AccessBool True) (Some (example_pagination None))
              :: (Where, unit) args"
  have 1: "paginationOptions ?a = Some (example_pagination None)"
    by (simp add: example_args_def)
  have 2: "sort_option (example_pagination None :: (string \<times> string) list option paginate_options) = None"
    by (simp add: example_pagination_def)
  note t = pagination_without_sort_rejects [OF 1 2, of spec_helpers]
  have calls1: "fst (queryDraftsV1 spec_helpers ?a) =
      [BuildQuery \<lparr>bq_where = [], bq_access = None, bq_req = (), bq_overrideAccess = False\<rparr>]"
    by (simp add: queryDraftsV1_def example_args_defs reduce_sort_def)
  have calls2: "fst (queryDraftsV2 spec_helpers ?a) =
      [BuildQuery \<lparr>bq_where = [Where_field ''latest'' [(''equals'', JBool True)]],
         bq_access = Some (AccessBool True), bq_req = (), bq_overrideAccess = False\<rparr>]"
    by (simp add: queryDraftsV2_def example_args_defs reduce_sort_def)
  have total: "\<And>b. buildQuery example_model b \<noteq> Inl e" for e
    by (simp add: example_model_def)
  have m: "versions (payload ?a) (collection_slug ?a) = Some example_model"
    by (simp add: example_args_def example_payload_def)
  from t m total have "snd (queryDraftsV1 spec_helpers ?a) = Inl TypeError"
    and "snd (queryDraftsV2 spec_helpers ?a) = Inl TypeError"
    by auto
  with calls1 calls2 have "queryDraftsV1 spec_helpers ?a =
     ([BuildQuery \<lparr>bq_where = [], bq_access = None, bq_req = (), bq_overrideAccess = False\<rparr>],
      Inl TypeError)"
    and "queryDraftsV2 spec_helpers ?a =
     ([BuildQuery \<lparr>bq_where = [Where_field ''latest'' [(''equals'', JBool True)]],
         bq_access = Some (AccessBool True), bq_req = (), bq_overrideAccess = False\<rparr>],
      Inl TypeError)"
    by (simp_all add: prod_eq_iff)
  with 1 2 show ?thesis by (intro conjI)
qed

subsection \<open>The selector\<close>

text \<open>
  C4. \<open>queryDrafts\<close> returns, with the same calls, what \<open>queryDraftsV2\<close> returns on the same
  arguments when the flag \<open>queryDrafts_2_0\<close> of the configuration is set, and what
  \<open>queryDraftsV1\<close> returns on the same arguments otherwise; nothing else of the arguments
  enters the choice.
\<close>

theorem queryDrafts_dispatches_on_flag:
  "queryDrafts h a =
     (case payload_config (payload a) of
        None \<Rightarrow> queryDraftsV1 h a
      | Some c \<Rightarrow>
          (case database c of
             None \<Rightarrow> queryDraftsV1 h a
           | Some d \<Rightarrow>
               if queryDrafts_2_0 d = Some True then queryDraftsV2 h a else queryDraftsV1 h a))"
  by (simp add: queryDrafts_def usesFlagStrategy_def split: option.splits)

text \<open>
  The scenario of the spec (8) with no filter: with the flag set the result is the one entity
  \<open>Y\<close>, marked latest; without it the result is \<open>X\<close>, from its newest version, and \<open>Y\<close>.
\<close>

theorem queryDrafts_dispatches_on_flag_witness:
  "queryDrafts spec_helpers
     (example_args (Some True) None (AccessBool True) (Some (example_pagination (Some [])))) =
   queryDraftsV2 spec_helpers
     (example_args (Some True) None (AccessBool True) (Some (example_pagination (Some [])))) \<and>
   queryDrafts spec_helpers
     (example_args (Some False) None (AccessBool True) (Some (example_pagination (Some [])))) =
   queryDraftsV1 spec_helpers
     (example_args (Some False) None (AccessBool True) (Some (example_pagination (Some [])))) \<and>
   snd (queryDrafts spec_helpers
     (example_args (Some True) None (AccessBool True) (Some (example_pagination (Some []))))) =
     Inr \<lparr>docs = [normalizeV2 (example_store ! 2)], rest = []\<rparr> \<and>
   snd (queryDrafts spec_helpers
     (example_args (Some False) None (AccessBool True) (Some (example_pagination (Some []))))) =
     Inr \<lparr>docs = [normalizeV1 (first_of_group (example_store ! 1)),
                 normalizeV1 (first_of_group (example_store ! 2))], rest = []\<rparr>"
proof -
  let ?on = "example_args (Some True) None (AccessBool True) (Some (example_pagination (Some [])))
               :: (Where, unit) args"
  let ?off = "example_args (Some False) None (AccessBool True) (Some (example_pagination (Some [])))
               :: (Where, unit) args"
  from queryDrafts_dispatches_on_flag [of spec_helpers ?on]
  have on: "queryDrafts spec_helpers ?on = queryDraftsV2 spec_helpers ?on"
    by (simp add: example_args_def example_payload_def)
  from queryDrafts_dispatches_on_flag [of spec_helpers ?off]
  have off: "queryDrafts spec_helpers ?off = queryDraftsV1 spec_helpers ?off"
    by (simp add: example_args_def example_payload_def)
  have v2: "snd (queryDraftsV2 spec_helpers ?on) =
      Inr \<lparr>docs = [normalizeV2 (example_store ! 2)], rest = []\<rparr>"
    by (simp add: queryDraftsV2_def example_args_defs reduce_sort_def map_docs_def docs_of_def
        rest_of_def example_defs)
  have v1: "snd (queryDraftsV1 spec_helpers ?off) =
      Inr \<lparr>docs = [normalizeV1 (first_of_group (example_store ! 1)),
                  normalizeV1 (first_of_group (example_store ! 2))], rest = []\<rparr>"
    by (simp add: queryDraftsV1_def example_args_defs reduce_sort_def map_docs_def docs_of_def
        rest_of_def run_pipeline_def example_defs)
  from on off v1 v2 show ?thesis by simp
qed

text \<open>
  C10. When the configuration is absent, or its database section is, \<open>queryDrafts\<close> is
  \<open>queryDraftsV1\<close>; the flag strategy is selected exactly when the configuration and its
  database section are present and the flag is set, and then \<open>queryDrafts\<close> is
  \<open>queryDraftsV2\<close>.
\<close>

theorem absent_configuration_selects_aggregation:
  "(payload_config (payload a) = None \<longrightarrow> queryDrafts h a = queryDraftsV1 h a) \<and>
   (\<forall>c. payload_config (payload a) = Some c \<and> database c = None \<longrightarrow>
      queryDrafts h a = queryDraftsV1 h a) \<and>
   (usesFlagStrategy (payload a) \<longleftrightarrow>
      (\<exists>c d. payload_config (payload a) = Some c \<and> database c = Some d \<and>
         queryDrafts_2_0 d = Some True)) \<and>
   (usesFlagStrategy (payload a) \<longrightarrow> queryDrafts h a = queryDraftsV2 h a) \<and>
   (\<not> usesFlagStrategy (payload a) \<longrightarrow> queryDrafts h a = queryDraftsV1 h a)"
proof -
  have flag: "usesFlagStrategy (payload a) \<longleftrightarrow>
      (\<exists>c d. payload_config (payload a) = Some c \<and> database c = Some d \<and>
         queryDrafts_2_0 d = Some True)"
    by (cases "payload_config (payload a)")
       (auto simp: usesFlagStrategy_def split: Option.bind_splits)
  then show ?thesis
    by (auto simp: queryDrafts_def)
qed

theorem absent_configuration_selects_aggregation_witness:
  "payload_config (payload ((example_args None None (AccessBool True) None)
       \<lparr>payload := (example_payload None)\<lparr>payload_config := None\<rparr>\<rparr>)) = None \<and>
   queryDrafts spec_helpers ((example_args None None (AccessBool True) None)
       \<lparr>payload := (example_payload None)\<lparr>payload_config := None\<rparr>\<rparr>) =
   queryDraftsV1 spec_helpers ((example_args None None (AccessBool True) None)
       \<lparr>payload := (example_payload None)\<lparr>payload_config := None\<rparr>\<rparr>) \<and>
   payload_config (payload ((example_args None None (AccessBool True) None)
       \<lparr>payload := (example_payload None)\<lparr>payload_config := Some \<lparr>database = None\<rparr>\<rparr>\<rparr>)) =
     Some \<lparr>database = None\<rparr> \<and>
   queryDrafts spec_helpers ((example_args None None (AccessBool True) None)
       \<lparr>payload := (example_payload None)\<lparr>payload_config := Some \<lparr>database = None\<rparr>\<rparr>\<rparr>) =
   queryDraftsV1 spec_helpers ((example_args None None (AccessBool True) None)
       \<lparr>payload := (example_payload None)\<lparr>payload_config := Some \<lparr>database = None\<rparr>\<rparr>\<rparr>) \<and>
   usesFlagStrategy (example_payload (Some True)) \<and>
   queryDrafts spec_helpers (example_args (Some True) None (AccessBool True) None) =
   queryDraftsV2 spec_helpers (example_args (Some True) None (AccessBool True) None) \<and>
   \<not> usesFlagStrategy (example_payload None) \<and>
   queryDrafts spec_helpers (example_args None None (AccessBool True) None) =
   queryDraftsV1 spec_helpers (example_args None None (AccessBool True) None)"
proof -
  let ?none = "(example_args None None (AccessBool True) None)
       \<lparr>payload := (example_payload None)\<lparr>payload_config := None\<rparr>\<rparr> :: (Where, unit) args"
  let ?nodb = "(example_args None None (AccessBool True) None)
       \<lparr>payload := (example_payload None)\<lparr>payload_config := Some \<lparr>database = None\<rparr>\<rparr>\<rparr>
       :: (Where, unit) args"
  let ?on = "example_args (Some True) None (AccessBool True) None :: (Where, unit) args"
  let ?unset = "example_args None None (AccessBool True) None :: (Where, unit) args"
  have 1: "payload_config (payload ?none) = None" by simp
  have 2: "payload_config (payload ?nodb) = Some \<lparr>database = None\<rparr>" by simp
  have 3: "usesFlagStrategy (payload ?on)" "usesFlagStrategy (example_payload (Some True))"
    by (simp_all add: usesFlagStrategy_def example_args_def example_payload_def)
  have 4: "\<not> usesFlagStrategy (payload ?unset)" "\<not> usesFlagStrategy (example_payload None)"
    by (simp_all add: usesFlagStrategy_def example_args_def example_payload_def)
  from absent_configuration_selects_aggregation [of ?none spec_helpers] 1
  have a: "queryDrafts spec_helpers ?none = queryDraftsV1 spec_helpers ?none" by blast
  from absent_configuration_selects_aggregation [of ?nodb spec_helpers] 2
  have b: "queryDrafts spec_helpers ?nodb = queryDraftsV1 spec_helpers ?nodb" by simp
  from absent_configuration_selects_aggregation [of ?on spec_helpers] 3(1)
  have c: "queryDrafts spec_helpers ?on = queryDraftsV2 spec_helpers ?on" by blast
  from absent_configuration_selects_aggregation [of ?unset spec_helpers] 4(1)
  have d: "queryDrafts spec_helpers ?unset = queryDraftsV1 spec_helpers ?unset" by blast
  from 1 a 2 b 3(2) c 4(2) d show ?thesis by (intro conjI)
qed

subsection \<open>Without pagination\<close>

lemma queryDraftsV1_without_pagination:
  "paginationOptions a = None \<Longrightarrow> snd (queryDraftsV1 h a) \<noteq> Inr res"
  by (auto simp: queryDraftsV1_def Let_def map_docs_def docs_of_def split: option.splits sum.splits)

lemma queryDraftsV2_without_pagination:
  assumes "versions (payload a) (collection_slug a) = Some m" and "paginationOptions a = None"
    and "buildQuery m
           \<lparr>bq_where =
              combineQueries h [Where_field ''latest'' [(''equals'', JBool True)]] (where_arg a),
            bq_access = Some (accessResult a), bq_req = req a,
            bq_overrideAccess = overrideAccess a\<rparr> = Inr q"
    and "find m q = Inr (Paginated p)"
  shows "snd (queryDraftsV2 h a) = Inr \<lparr>docs = map normalizeV2 (docs p), rest = rest p\<rparr> \<and>
         last (fst (queryDraftsV2 h a)) = Find q"
  using assms
  by (simp add: queryDraftsV2_def Let_def map_docs_def docs_of_def rest_of_def)

text \<open>
  C8. Without a pagination spec the aggregation strategy calls \<open>exec\<close> and does not await it
  (line 103), so \<open>result\<close> is a promise, \<open>result.docs\<close> is \<open>undefined\<close>, and line 108 throws: on
  the example store, with no filter, \<open>queryDraftsV1\<close> rejects with a TypeError where the
  claim has it return the normalised docs, as \<open>queryDraftsV2\<close> does on the same arguments.
\<close>

theorem aggregation_without_pagination_rejects:
  "queryDraftsV1 spec_helpers (example_args None None (AccessBool True) None) =
     ([BuildQuery \<lparr>bq_where = [], bq_access = None, bq_req = (), bq_overrideAccess = False\<rparr>,
       AggregateExec
         \<lparr>pipeline = [Sort_updatedAt_desc, Group_parent_first, Match []], allowDiskUse = True\<rparr>],
      Inl TypeError) \<and>
   queryDraftsV2 spec_helpers (example_args None None (AccessBool True) None) =
     ([BuildQuery \<lparr>bq_where = [Where_field ''latest'' [(''equals'', JBool True)]],
         bq_access = Some (AccessBool True), bq_req = (), bq_overrideAccess = False\<rparr>,
       Find [Where_field ''latest'' [(''equals'', JBool True)]]],
      Inr \<lparr>docs = [normalizeV2 (example_store ! 2)], rest = []\<rparr>)"
  by (simp add: queryDraftsV1_def queryDraftsV2_def example_args_defs map_docs_def docs_of_def
      rest_of_def example_defs)

end
